theory Spec2Isabelle
  imports Complex_Main "HOL-Library.Word"
begin

unbundle bit_operations_syntax

section \<open>Exceptions\<close>

text \<open>
  Every exception the backend raises is a value; the string is the text that
  \<^verbatim>\<open>str(e)\<close> gives. \<open>TransportError\<close> stands for whatever the USB layer raises,
  \<open>HTTPException\<close> carries the status code and the detail.
\<close>

datatype error =
    DeviceControllerError string
  | TransportError string
  | ValueError string
  | AttributeError string
  | ZeroDivisionError string
  | OverflowError string
  | HTTPException nat string

fun str_error :: "error \<Rightarrow> string" where
  "str_error (DeviceControllerError m) = m"
| "str_error (TransportError m) = m"
| "str_error (ValueError m) = m"
| "str_error (AttributeError m) = m"
| "str_error (ZeroDivisionError m) = m"
| "str_error (OverflowError m) = m"
| "str_error (HTTPException code m) = m"

section \<open>The transport (\<^verbatim>\<open>USBQPort\<close>)\<close>

text \<open>
  The USB port object behind \<^verbatim>\<open>self.device\<close> is an external collaborator with the three
  calls \<^verbatim>\<open>writeReg\<close>, \<^verbatim>\<open>readReg\<close> and \<^verbatim>\<open>enableSync\<close>. It is kept opaque: it
  records every call it completes, it may raise on any call, and it answers reads as the
  hardware pleases.

  \<^item> \<open>trace\<close>: the calls completed so far, oldest first;
  \<^item> \<open>calls\<close>: the number of calls attempted so far;
  \<^item> \<open>fault t k = Some m\<close>: the call number \<open>k\<close> raises with message \<open>m\<close>;
  \<^item> \<open>readback t k a\<close>: the value that call number \<open>k\<close> returns when it reads address \<open>a\<close>.
\<close>

datatype event = WriteReg int int | ReadReg int | EnableSync bool

record transport =
  trace :: "event list"
  calls :: nat
  fault :: "nat \<Rightarrow> string option"
  readback :: "nat \<Rightarrow> int \<Rightarrow> int"

definition transport_call :: "event \<Rightarrow> transport \<Rightarrow> (error + unit) \<times> transport" where
  "transport_call ev t =
     (case fault t (calls t) of
        Some m \<Rightarrow> (Inl (TransportError m), t\<lparr>calls := calls t + 1\<rparr>)
      | None \<Rightarrow> (Inr (), t\<lparr>trace := trace t @ [ev], calls := calls t + 1\<rparr>))"

definition writeReg :: "int \<Rightarrow> int \<Rightarrow> transport \<Rightarrow> (error + unit) \<times> transport" where
  "writeReg address val = transport_call (WriteReg address val)"

definition readReg :: "int \<Rightarrow> transport \<Rightarrow> (error + int) \<times> transport" where
  "readReg address t =
     (case transport_call (ReadReg address) t of
        (Inl e, t') \<Rightarrow> (Inl e, t')
      | (Inr _, t') \<Rightarrow> (Inr (readback t (calls t) address), t'))"

definition enableSync :: "bool \<Rightarrow> transport \<Rightarrow> (error + unit) \<times> transport" where
  "enableSync enable = transport_call (EnableSync enable)"

text \<open>What the device holds after a trace: the page selector is the last value written
  to register 2, the sync line the last value given to \<^verbatim>\<open>enableSync\<close>.\<close>

fun page_selector :: "event list \<Rightarrow> int option" where
  "page_selector [] = None"
| "page_selector (WriteReg a v # es) =
     (case page_selector es of Some p \<Rightarrow> Some p | None \<Rightarrow> if a = 2 then Some v else None)"
| "page_selector (e # es) = page_selector es"

fun sync_line :: "event list \<Rightarrow> bool option" where
  "sync_line [] = None"
| "sync_line (EnableSync b # es) =
     (case sync_line es of Some b' \<Rightarrow> Some b' | None \<Rightarrow> Some b)"
| "sync_line (e # es) = sync_line es"

section \<open>The controller (\<^verbatim>\<open>device/controller.py\<close>)\<close>

record controller =
  device :: "transport option"
  connected :: bool

type_synonym 'a action = "controller \<Rightarrow> (error + 'a) \<times> controller"

text \<open>Sequencing of statements: an exception ends the sequence and keeps the state reached.\<close>

definition bind_action :: "'a action \<Rightarrow> ('a \<Rightarrow> 'b action) \<Rightarrow> 'b action" where
  "bind_action m k c = (case m c of (Inl e, c') \<Rightarrow> (Inl e, c') | (Inr x, c') \<Rightarrow> k x c')"

definition then_action :: "'a action \<Rightarrow> 'b action \<Rightarrow> 'b action" where
  "then_action m n = bind_action m (\<lambda>_. n)"

definition return_action :: "'a \<Rightarrow> 'a action" where
  "return_action x c = (Inr x, c)"

text \<open>A \<^verbatim>\<open>for\<close> loop over a list whose body may raise.\<close>

fun for_each :: "('a \<Rightarrow> unit action) \<Rightarrow> 'a list \<Rightarrow> unit action" where
  "for_each body [] c = (Inr (), c)"
| "for_each body (x # xs) c =
     (case body x c of (Inl e, c') \<Rightarrow> (Inl e, c') | (Inr _, c') \<Rightarrow> for_each body xs c')"

definition is_connected :: "controller \<Rightarrow> bool" where
  "is_connected c \<longleftrightarrow> connected c \<and> device c \<noteq> None"

definition ensure_connected :: "unit action" where
  "ensure_connected c =
     (if \<not> is_connected c then (Inl (DeviceControllerError ''Device not connected''), c)
      else (Inr (), c))"

text \<open>A call on \<^verbatim>\<open>self.device\<close>; on \<^verbatim>\<open>None\<close> Python raises an AttributeError.\<close>

definition on_device :: "(transport \<Rightarrow> (error + 'a) \<times> transport) \<Rightarrow> 'a action" where
  "on_device f c =
     (case device c of
        None \<Rightarrow> (Inl (AttributeError ''NoneType object has no attribute''), c)
      | Some t \<Rightarrow> (case f t of (r, t') \<Rightarrow> (r, c\<lparr>device := Some t'\<rparr>)))"

definition enable_sync :: "bool \<Rightarrow> unit action" where
  "enable_sync enable = then_action ensure_connected (on_device (enableSync enable))"

definition write_reg :: "int \<Rightarrow> int \<Rightarrow> int \<Rightarrow> unit action" where
  "write_reg address val page_select =
     then_action ensure_connected
    (then_action (on_device (writeReg 2 page_select))
    (then_action (on_device (writeReg address val))
                 (on_device (writeReg 2 0))))"

definition read_reg :: "int \<Rightarrow> int \<Rightarrow> int action" where
  "read_reg address page_select =
     then_action ensure_connected
    (then_action (on_device (writeReg 2 page_select))
    (then_action (on_device (writeReg 0 2))
    (bind_action (on_device (readReg address)) (\<lambda>val.
     then_action (on_device (writeReg 0 0))
    (then_action (on_device (writeReg 2 0))
                 (return_action val))))))"

text \<open>The calls one \<open>write_reg\<close> and one \<open>read_reg\<close> are to put on the transport.\<close>

definition write_events :: "int \<Rightarrow> int \<Rightarrow> int \<Rightarrow> event list" where
  "write_events address val page_select =
     [WriteReg 2 page_select, WriteReg address val, WriteReg 2 0]"

definition read_events :: "int \<Rightarrow> int \<Rightarrow> event list" where
  "read_events address page_select =
     [WriteReg 2 page_select, WriteReg 0 2, ReadReg address, WriteReg 0 0, WriteReg 2 0]"

text \<open>A controller whose transport is attached and raises on none of its calls.\<close>

definition healthy :: "controller \<Rightarrow> bool" where
  "healthy c \<longleftrightarrow> connected c \<and> (case device c of None \<Rightarrow> False | Some t \<Rightarrow> \<forall>k. fault t k = None)"

definition seen :: "controller \<Rightarrow> event list" where
  "seen c = (case device c of None \<Rightarrow> [] | Some t \<Rightarrow> trace t)"

definition idle_transport :: transport where
  "idle_transport = \<lparr>trace = [], calls = 0, fault = (\<lambda>k. None), readback = (\<lambda>k a. 0)\<rparr>"

definition idle_controller :: controller where
  "idle_controller = \<lparr>device = Some idle_transport, connected = True\<rparr>"

text \<open>The transport after it has completed the calls \<open>evs\<close>.\<close>

definition advance :: "event list \<Rightarrow> controller \<Rightarrow> controller" where
  "advance evs c =
     (case device c of
        None \<Rightarrow> c
      | Some t \<Rightarrow> c\<lparr>device := Some (t\<lparr>trace := trace t @ evs, calls := calls t + length evs\<rparr>)\<rparr>)"

text \<open>The value the transport gives if its next call is a read of address \<open>a\<close>.\<close>

definition next_read :: "controller \<Rightarrow> int \<Rightarrow> int" where
  "next_read c a = (case device c of None \<Rightarrow> 0 | Some t \<Rightarrow> readback t (calls t) a)"

section \<open>Python built-ins used by the services\<close>

text \<open>\<^verbatim>\<open>range(a, b)\<close> and \<^verbatim>\<open>enumerate(xs)\<close>.\<close>

definition py_range :: "int \<Rightarrow> int \<Rightarrow> int list" where
  "py_range a b = map (\<lambda>k. a + int k) [0..<nat (b - a)]"

definition py_enumerate :: "'a list \<Rightarrow> (int \<times> 'a) list" where
  "py_enumerate xs = zip (map int [0..<length xs]) xs"

text \<open>A list comprehension whose element expression may raise: the first exception wins.\<close>

fun map_raise :: "('a \<Rightarrow> error + 'b) \<Rightarrow> 'a list \<Rightarrow> error + 'b list" where
  "map_raise f [] = Inr []"
| "map_raise f (x # xs) =
     (case f x of
        Inl e \<Rightarrow> Inl e
      | Inr y \<Rightarrow> (case map_raise f xs of Inl e \<Rightarrow> Inl e | Inr ys \<Rightarrow> Inr (y # ys)))"

section \<open>Beamforming service (\<^verbatim>\<open>services/beamforming_service.py\<close>)\<close>

definition ELEMENT_POSITIONS :: "real list" where
  "ELEMENT_POSITIONS =
     [- 0.00182, - 0.00171, - 0.0016, - 0.00149, - 0.00138, - 0.00127, - 0.00116, - 0.00105,
      - 0.000935, - 0.000825, - 0.000715, - 0.000605, - 0.000495, - 0.000385, - 0.000275,
      - 0.000165,
      0.000165, 0.000275, 0.000385, 0.000495, 0.000605, 0.000715, 0.000825, 0.000935,
      0.00105, 0.00116, 0.00127, 0.00138, 0.00149, 0.0016, 0.00171, 0.00182]"

text \<open>
  The steering computation works on floating-point numbers. They are read here as the real
  numbers they stand for: \<^verbatim>\<open>np.deg2rad\<close> and \<^verbatim>\<open>np.sin\<close> are the exact functions and
  \<^verbatim>\<open>np.round\<close> rounds halves to the even neighbour. What is kept of the floating-point
  behaviour is where Python raises: the division of the two Python floats
  \<^verbatim>\<open>speed_of_sound / frequency_hz\<close> raises \<^verbatim>\<open>ZeroDivisionError\<close> at frequency 0, while
  the division of a NumPy float by a zero speed of sound gives an infinity or a NaN, which
  \<^verbatim>\<open>int\<close> then refuses. The properties proved below do not depend on how the cycles are
  rounded: they hold for the clamped and shifted list whatever the cycles are, and at the
  angle 0 the floating-point computation gives zero exactly as the real one does.
\<close>

definition deg2rad :: "real \<Rightarrow> real" where
  "deg2rad x = x * (pi / 180)"

definition np_round :: "real \<Rightarrow> int" where
  "np_round x =
     (let f = \<lfloor>x\<rfloor>; d = x - of_int f
      in if d < 1 / 2 then f else if 1 / 2 < d then f + 1 else if even f then f else f + 1)"

definition calculate_delays_from_angle :: "real \<Rightarrow> real \<Rightarrow> real \<Rightarrow> error + int list" where
  "calculate_delays_from_angle steering_angle_deg speed_of_sound frequency_hz =
     (if frequency_hz = 0 then Inl (ZeroDivisionError ''float division by zero'')
      else
        let angle_rad = deg2rad steering_angle_deg in
        if speed_of_sound = 0 then
          (if sin angle_rad = 0 then Inl (ValueError ''cannot convert float NaN to integer'')
           else Inl (OverflowError ''cannot convert float infinity to integer''))
        else
          let delays =
                map (\<lambda>pos.
                       let delay_time = pos * sin angle_rad / speed_of_sound;
                           delay_cycles = np_round (delay_time / (4 / 10 ^ 9))
                       in max 0 delay_cycles)
                    ELEMENT_POSITIONS;
              min_delay = min_list delays
          in Inr (map (\<lambda>d. d - min_delay) delays))"

definition encode_delay_to_hex :: "int \<Rightarrow> bool \<Rightarrow> int" where
  "encode_delay_to_hex delay_cycles fractional =
     (let val = delay_cycles AND 0x3FFF
      in if fractional then val OR 0x4000 else val)"

definition combine_channel_delays :: "int list \<Rightarrow> error + int list" where
  "combine_channel_delays delays =
     (if length delays \<noteq> 32 then Inl (ValueError ''Must provide exactly 32 delay values'')
      else
        Inr (map (\<lambda>i.
                    let delay_odd = encode_delay_to_hex (delays ! i) False;
                        delay_even = encode_delay_to_hex (delays ! (i + 1)) False
                    in push_bit 16 delay_even OR delay_odd)
                 (map (\<lambda>k. 2 * k) [0..<16])))"

section \<open>The apply endpoints (\<^verbatim>\<open>api/routers\<close>)\<close>

text \<open>
  \<^verbatim>\<open>ApiResponse\<close>, with the one entry of \<^verbatim>\<open>data\<close> that counts what was written
  (\<^verbatim>\<open>delays_applied\<close>, \<^verbatim>\<open>pattern_words\<close>); the other entries echo the configuration.
\<close>

record api_response =
  success :: bool
  message :: string
  data_count :: nat

text \<open>The two \<^verbatim>\<open>except\<close> clauses of an endpoint: an \<^verbatim>\<open>HTTPException\<close> passes, every other
  exception becomes a status 500 with the text of the exception.\<close>

definition http_guard :: "string \<Rightarrow> 'a action \<Rightarrow> 'a action" where
  "http_guard what body c =
     (case body c of
        (Inl (HTTPException code detail), c') \<Rightarrow> (Inl (HTTPException code detail), c')
      | (Inl e, c') \<Rightarrow> (Inl (HTTPException 500 (what @ str_error e)), c')
      | (Inr r, c') \<Rightarrow> (Inr r, c'))"

text \<open>
  \<open>apply_beamforming\<close>. The argument \<open>calculated\<close> is the outcome of the delay calculation
  for the current configuration (the focus solver or \<open>calculate_delays_from_angle\<close>), which
  runs inside the \<^verbatim>\<open>try\<close>.
\<close>

definition apply_beamforming_body :: "(error + int list) \<Rightarrow> api_response action" where
  "apply_beamforming_body calculated c =
     (if \<not> is_connected c then (Inl (HTTPException 400 ''Device not connected''), c)
      else case calculated of
        Inl e \<Rightarrow> (Inl e, c)
      | Inr delays \<Rightarrow>
         (case combine_channel_delays delays of
            Inl e \<Rightarrow> (Inl e, c)
          | Inr combined_delays \<Rightarrow>
              (let delay_start_word = (0 :: int) in
               then_action (enable_sync False)
              (then_action
                 (for_each
                    (\<lambda>reg_index.
                       write_reg reg_index (push_bit 16 delay_start_word OR delay_start_word) 0)
                    (py_range 0x0D 0x15))
              (then_action
                 (for_each
                    (\<lambda>(index, delay_value).
                       write_reg (0x40 + delay_start_word * 8 + index) delay_value 0x00010000)
                    (py_enumerate combined_delays))
              (then_action (enable_sync True)
              (then_action (write_reg 0x08 0x00000002 0)
                 (return_action
                    \<lparr>success = True, message = ''Beamforming configuration applied'',
                     data_count = length combined_delays\<rparr>)))))) c))"

definition apply_beamforming :: "(error + int list) \<Rightarrow> api_response action" where
  "apply_beamforming calculated =
     http_guard ''Error applying beamforming: '' (apply_beamforming_body calculated)"

section \<open>Pattern service and pattern endpoint\<close>

text \<open>An entry of \<^verbatim>\<open>PRESET_PATTERNS\<close>, without its frequency and description texts.\<close>

record preset =
  preset_name :: string
  preset_type :: string
  preset_cycles :: int
  pattern_hex :: "int list"
  pattern_start_word :: int

definition PRESET_PATTERNS :: "(string \<times> preset) list" where
  "PRESET_PATTERNS =
     [(''5.6MHz_3LVL_A'',
         \<lparr>preset_name = ''5.6 MHz 3-Level A'', preset_type = ''5.6MHz_3LVL_A'',
          preset_cycles = 2, pattern_hex = [0x00020002, 0x0000B5B1],
          pattern_start_word = 0x001E\<rparr>),
      (''5.6MHz_3LVL_extended'',
         \<lparr>preset_name = ''5.6 MHz 3-Level Extended'', preset_type = ''5.6MHz_3LVL_extended'',
          preset_cycles = 2, pattern_hex = [0xB5B10100, 0xC8C80500, 0x0000FF00],
          pattern_start_word = 0x001E\<rparr>),
      (''3.4MHz_2LVL_A'',
         \<lparr>preset_name = ''3.4 MHz 2-Level A'', preset_type = ''3.4MHz_2LVL_A'',
          preset_cycles = 2, pattern_hex = [0x31F90300, 0x050035FD, 0xFF00C8C8],
          pattern_start_word = 0x001E\<rparr>),
      (''test_glitch'',
         \<lparr>preset_name = ''Test Glitch Pattern'', preset_type = ''test_glitch'',
          preset_cycles = 0, pattern_hex = [0xA0A00000],
          pattern_start_word = 0x001E\<rparr>)]"

definition get_preset_by_type :: "string \<Rightarrow> preset option" where
  "get_preset_by_type pattern_type = map_of PRESET_PATTERNS pattern_type"

definition validate_custom_pattern :: "int list \<Rightarrow> bool" where
  "validate_custom_pattern hex \<longleftrightarrow>
     hex \<noteq> [] \<and> list_all (\<lambda>v. \<not> (v < 0 \<or> 0xFFFFFFFF < v)) hex"

text \<open>\<^verbatim>\<open>PatternConfig\<close>: the two fields that select what is written.\<close>

record pattern_config =
  pattern_type :: string
  custom_hex :: "string list option"

definition default_pattern :: pattern_config where
  "default_pattern = \<lparr>pattern_type = ''5.6MHz_3LVL_A'', custom_hex = None\<rparr>"

text \<open>
  \<open>apply_pattern\<close>, for the current pattern \<open>cur\<close>. The argument \<open>int16\<close> is Python's
  \<^verbatim>\<open>int(h, 16)\<close>, which returns the number or raises. An absent and an empty
  \<^verbatim>\<open>custom_hex\<close> both select the preset.
\<close>

definition select_pattern ::
  "(string \<Rightarrow> error + int) \<Rightarrow> pattern_config \<Rightarrow> error + int list \<times> int" where
  "select_pattern int16 cur =
     (case custom_hex cur of
        Some (h # hs) \<Rightarrow>
          (case map_raise int16 (h # hs) of
             Inl e \<Rightarrow> Inl e
           | Inr hex \<Rightarrow> Inr (hex, 0x001E))
      | _ \<Rightarrow>
          (case get_preset_by_type (pattern_type cur) of
             None \<Rightarrow> Inl (HTTPException 400 ''Pattern type not found'')
           | Some p \<Rightarrow> Inr (pattern_hex p, pattern_start_word p)))"

definition apply_pattern_body ::
  "(string \<Rightarrow> error + int) \<Rightarrow> pattern_config \<Rightarrow> api_response action" where
  "apply_pattern_body int16 cur c =
     (if \<not> is_connected c then (Inl (HTTPException 400 ''Device not connected''), c)
      else case select_pattern int16 cur of
        Inl e \<Rightarrow> (Inl e, c)
      | Inr (hex, start_word) \<Rightarrow>
          (then_action (enable_sync False)
          (then_action (write_reg 0x08 0x00000000 0)
          (then_action
             (for_each
                (\<lambda>reg_index. write_reg reg_index (push_bit 16 start_word OR start_word) 0)
                (py_range 0x0C 0x14))
          (then_action
             (for_each
                (\<lambda>(i, pat). write_reg (0x40 + start_word + i) pat 0x0000FFFF)
                (py_enumerate hex))
             (return_action
                \<lparr>success = True, message = ''Pattern applied to device'',
                 data_count = length hex\<rparr>))))) c)"

definition apply_pattern ::
  "(string \<Rightarrow> error + int) \<Rightarrow> pattern_config \<Rightarrow> api_response action" where
  "apply_pattern int16 cur = http_guard ''Error applying pattern: '' (apply_pattern_body int16 cur)"

section \<open>Diagnostics service (\<^verbatim>\<open>services/diagnostics_service.py\<close>)\<close>

text \<open>\<^verbatim>\<open>format(v, '032b')\<close>: the binary digits, padded with zeros after the sign to 32
  characters; \<^verbatim>\<open>str(v)\<close>; \<^verbatim>\<open>int(s, 2)\<close> on a sign followed by binary digits.\<close>

function bin_digits :: "nat \<Rightarrow> string" where
  "bin_digits n =
     (if n < 2 then [if n = 0 then CHR ''0'' else CHR ''1'']
      else bin_digits (n div 2) @ [if even n then CHR ''0'' else CHR ''1''])"
  by pat_completeness auto
termination
  by (relation "measure (\<lambda>n. n)") auto

declare bin_digits.simps [simp del]

definition zfill :: "nat \<Rightarrow> string \<Rightarrow> string" where
  "zfill w ds = replicate (w - length ds) CHR ''0'' @ ds"

definition format_032b :: "int \<Rightarrow> string" where
  "format_032b v =
     (if v < 0 then CHR ''-'' # zfill 31 (bin_digits (nat (- v)))
      else zfill 32 (bin_digits (nat v)))"

function dec_digits :: "nat \<Rightarrow> string" where
  "dec_digits n =
     (if n < 10 then [char_of (48 + n)]
      else dec_digits (n div 10) @ [char_of (48 + n mod 10)])"
  by pat_completeness auto
termination
  by (relation "measure (\<lambda>n. n)") auto

declare dec_digits.simps [simp del]

definition str_int :: "int \<Rightarrow> string" where
  "str_int v = (if v < 0 then CHR ''-'' # dec_digits (nat (- v)) else dec_digits (nat v))"

definition bin_value :: "string \<Rightarrow> nat" where
  "bin_value ds = foldl (\<lambda>acc ch. 2 * acc + (if ch = CHR ''1'' then 1 else 0)) 0 ds"

definition int_base2 :: "string \<Rightarrow> int" where
  "int_base2 s =
     (case s of
        [] \<Rightarrow> 0
      | ch # ds \<Rightarrow> if ch = CHR ''-'' then - int (bin_value ds) else int (bin_value s))"

text \<open>What \<^verbatim>\<open>int(s, 2)\<close> accepts among the strings that occur: an optional minus sign and
  then at least one binary digit.\<close>

definition bin_literal :: "string \<Rightarrow> bool" where
  "bin_literal s \<longleftrightarrow>
     (let ds = (case s of [] \<Rightarrow> [] | ch # r \<Rightarrow> if ch = CHR ''-'' then r else s)
      in ds \<noteq> [] \<and> list_all (\<lambda>ch. ch = CHR ''0'' \<or> ch = CHR ''1'') ds)"

text \<open>The slices \<^verbatim>\<open>s[-6:]\<close> and \<^verbatim>\<open>s[:5]\<close>.\<close>

definition last6 :: "string \<Rightarrow> string" where
  "last6 s = drop (length s - 6) s"

definition first5 :: "string \<Rightarrow> string" where
  "first5 s = take 5 s"

record check =
  check_name :: string
  passed :: bool
  check_message :: string
  check_value :: "string option"

record snapshot =
  reg1D :: int
  reg4D :: int
  reg4E :: int
  reg62 :: int
  reg6C :: int
  reg78 :: int

definition capture :: "snapshot action" where
  "capture =
     bind_action (read_reg 0x1D 0) (\<lambda>r1D.
     bind_action (read_reg 0x4D 0) (\<lambda>r4D.
     bind_action (read_reg 0x4E 0) (\<lambda>r4E.
     bind_action (read_reg 0x62 0) (\<lambda>r62.
     bind_action (read_reg 0x6C 0) (\<lambda>r6C.
     bind_action (read_reg 0x78 0) (\<lambda>r78.
     return_action
       \<lparr>reg1D = r1D, reg4D = r4D, reg4E = r4E, reg62 = r62, reg6C = r6C, reg78 = r78\<rparr>))))))"

definition diagnostic_checks :: "snapshot \<Rightarrow> (bool \<times> string \<times> string) list" where
  "diagnostic_checks r =
     (let reg1D_bin = format_032b (reg1D r);
          reg4D_bin = format_032b (reg4D r);
          reg4E_bin = format_032b (reg4E r);
          reg62_bin = format_032b (reg62 r);
          reg6C_bin = format_032b (reg6C r);
          reg78_bin = format_032b (reg78 r)
      in
       [(int_base2 (last6 reg4D_bin) = 0, ''TEMP_SHUT_ERR[11:6]'', last6 reg4D_bin),
        (int_base2 (last6 reg62_bin) = 0, ''TEMP_SHUT_ERR[5:0]'', last6 reg62_bin),
        (reg6C_bin ! 15 = CHR ''1'', ''NO_CLK_ERR'', [reg6C_bin ! 15]),
        (reg1D_bin ! 31 = CHR ''0'', ''SINGLE_LVL_ERR'', [reg1D_bin ! 31]),
        (reg1D_bin ! 29 = CHR ''0'', ''LONG_TRAN_ERR'', [reg1D_bin ! 29]),
        (reg4E_bin ! 27 = CHR ''0'', ''P5V_SUP_ERR'', [reg4E_bin ! 27]),
        (reg4E_bin ! 26 = CHR ''0'', ''M5V_SUP_ERR'', [reg4E_bin ! 26]),
        (reg4E_bin ! 16 = CHR ''0'', ''PHV_RANGE_ERR'', [reg4E_bin ! 16]),
        (reg78_bin ! 29 = CHR ''0'', ''TRIG_ERR'', [reg78_bin ! 29]),
        (reg78_bin ! 31 = CHR ''0'', ''STANDBY_ERR'', [reg78_bin ! 31]),
        (int_base2 (first5 reg4D_bin) = 21, ''VALID_FLAG_1'', str_int (int_base2 (first5 reg4D_bin))),
        (int_base2 (first5 reg4E_bin) = 10, ''VALID_FLAG_2'', str_int (int_base2 (first5 reg4E_bin))),
        (int_base2 (first5 reg62_bin) = 11, ''VALID_FLAG_3'', str_int (int_base2 (first5 reg62_bin))),
        (int_base2 (first5 reg6C_bin) = 22, ''VALID_FLAG_4'', str_int (int_base2 (first5 reg6C_bin))),
        (int_base2 (first5 reg78_bin) = 25, ''VALID_FLAG_5'', str_int (int_base2 (first5 reg78_bin))),
        (reg4D_bin ! 15 = CHR ''0'', ''ERROR_RST'', [reg4D_bin ! 15])])"

definition to_check :: "bool \<times> string \<times> string \<Rightarrow> check" where
  "to_check t =
     (case t of (ok, name, v) \<Rightarrow>
        \<lparr>check_name = name, passed = ok,
         check_message = name @ '': '' @ (if ok then ''PASSED'' else ''FAILED''),
         check_value = Some v\<rparr>)"

text \<open>The inner \<^verbatim>\<open>try\<close>: the writes that reset the error flags (the sleep between them
  changes nothing here).\<close>

definition reset_error_flags :: "snapshot \<Rightarrow> unit action" where
  "reset_error_flags r =
     then_action
       (if format_032b (reg6C r) ! 15 \<noteq> CHR ''1'' then write_reg 0x08 0x00000002 0
        else return_action ())
    (then_action (write_reg 0x4D (push_bit 16 1) 0)
                 (write_reg 0x4D 0 0))"

definition run_diagnostics :: "(string \<times> check list) action" where
  "run_diagnostics c =
     (case ensure_connected c of
        (Inl e, c0) \<Rightarrow> (Inl e, c0)
      | (Inr _, c0) \<Rightarrow>
          (case capture c0 of
             (Inl e, c1) \<Rightarrow>
               (Inr (''FAIL'',
                     [\<lparr>check_name = ''DIAGNOSTICS'', passed = False,
                       check_message = ''Diagnostic error: '' @ str_error e,
                       check_value = None\<rparr>]), c1)
           | (Inr r, c1) \<Rightarrow>
               (let checks = map to_check (diagnostic_checks r);
                    all_passed = list_all passed checks
                in if \<not> all_passed then
                     (case reset_error_flags r c1 of
                        (Inr _, c2) \<Rightarrow>
                          (Inr (''FAIL'',
                                checks @
                                [\<lparr>check_name = ''ERROR_RESET'', passed = True,
                                  check_message = ''Error flags reset attempted'',
                                  check_value = None\<rparr>]), c2)
                      | (Inl e, c2) \<Rightarrow>
                          (Inr (''FAIL'',
                                checks @
                                [\<lparr>check_name = ''ERROR_RESET'', passed = False,
                                  check_message = ''Failed to reset error flags: '' @ str_error e,
                                  check_value = None\<rparr>]), c2))
                   else (Inr (''PASS'', checks), c1))))"

section \<open>What the apply sequences are to put on the transport\<close>

text \<open>The calls of a delay apply for the packed words \<open>combined\<close>, and of a pattern apply
  for the words \<open>hex\<close> at \<open>start_word\<close>, when no call raises.\<close>

definition delay_apply_events :: "int list \<Rightarrow> event list" where
  "delay_apply_events combined =
     [EnableSync False]
     @ concat (map (\<lambda>reg_index. write_events reg_index 0 0) (py_range 0x0D 0x15))
     @ concat (map (\<lambda>(index, delay_value). write_events (0x40 + index) delay_value 0x00010000)
                   (py_enumerate combined))
     @ [EnableSync True]
     @ write_events 0x08 0x00000002 0"

definition pattern_apply_events :: "int list \<Rightarrow> int \<Rightarrow> event list" where
  "pattern_apply_events hex start_word =
     [EnableSync False]
     @ write_events 0x08 0x00000000 0
     @ concat (map (\<lambda>reg_index. write_events reg_index (push_bit 16 start_word OR start_word) 0)
                   (py_range 0x0C 0x14))
     @ concat (map (\<lambda>(i, pat). write_events (0x40 + start_word + i) pat 0x0000FFFF)
                   (py_enumerate hex))"

text \<open>The idle controller with a transport whose call number \<open>n\<close> raises.\<close>

definition failing_controller :: "nat \<Rightarrow> controller" where
  "failing_controller n =
     \<lparr>device = Some (idle_transport
        \<lparr>fault := (\<lambda>k. if k = n then Some ''USB write failed'' else None)\<rparr>),
      connected = True\<rparr>"

text \<open>A stand-in for \<^verbatim>\<open>int(h, 16)\<close> that raises on every string.\<close>

definition int16_raises :: "string \<Rightarrow> error + int" where
  "int16_raises h = Inl (ValueError (''invalid literal for int() with base 16: '' @ h))"

text \<open>The character that renders one bit.\<close>

definition bit_char :: "bool \<Rightarrow> char" where
  "bit_char b = (if b then CHR ''1'' else CHR ''0'')"

text \<open>The snapshot in which all six diagnostic registers read as zero.\<close>

definition zero_snapshot :: snapshot where
  "zero_snapshot = \<lparr>reg1D = 0, reg4D = 0, reg4E = 0, reg62 = 0, reg6C = 0, reg78 = 0\<rparr>"

section \<open>Register transactions\<close>

lemma page_selector_append:
  "page_selector (es @ fs) = (case page_selector fs of Some p \<Rightarrow> Some p | None \<Rightarrow> page_selector es)"
  by (induction es rule: page_selector.induct) (auto split: option.splits)

lemma sync_line_append:
  "sync_line (es @ fs) = (case sync_line fs of Some b \<Rightarrow> Some b | None \<Rightarrow> sync_line es)"
  by (induction es rule: sync_line.induct) (auto split: option.splits)

lemma then_action_Inr:
  "then_action m n c = (Inr y, c'') \<longleftrightarrow> (\<exists>x c'. m c = (Inr x, c') \<and> n c' = (Inr y, c''))"
  by (auto simp: then_action_def bind_action_def split: prod.splits sum.splits)

lemma bind_action_Inr:
  "bind_action m k c = (Inr y, c'') \<longleftrightarrow> (\<exists>x c'. m c = (Inr x, c') \<and> k x c' = (Inr y, c''))"
  by (auto simp: bind_action_def split: prod.splits sum.splits)

lemma ensure_connected_Inr:
  "ensure_connected c = (Inr x, c') \<longleftrightarrow> is_connected c \<and> c' = c"
  by (auto simp: ensure_connected_def)

lemma on_device_call_seen:
  assumes "on_device (transport_call ev) c = (Inr x, c')"
  shows "seen c' = seen c @ [ev]"
  using assms
  by (auto simp: on_device_def seen_def transport_call_def split: option.splits prod.splits)

lemma on_device_read_seen:
  assumes "on_device (readReg a) c = (Inr x, c')"
  shows "seen c' = seen c @ [ReadReg a]"
  using assms
  by (auto simp: on_device_def seen_def readReg_def transport_call_def split: option.splits prod.splits)

lemma write_reg_seen:
  assumes "write_reg a v p c = (Inr x, c')"
  shows "seen c' = seen c @ write_events a v p"
  using assms
  unfolding write_reg_def writeReg_def then_action_Inr ensure_connected_Inr write_events_def
  by (auto dest!: on_device_call_seen)

lemma read_reg_seen:
  assumes "read_reg a p c = (Inr x, c')"
  shows "seen c' = seen c @ read_events a p"
  using assms
  unfolding read_reg_def writeReg_def then_action_Inr bind_action_Inr ensure_connected_Inr
    read_events_def return_action_def
  by (auto dest!: on_device_call_seen on_device_read_seen)

subsection \<open>Runs on a transport that does not raise\<close>

lemma healthy_is_connected: "healthy c \<Longrightarrow> is_connected c"
  by (auto simp: healthy_def is_connected_def split: option.splits)

lemma healthy_advance: "healthy c \<Longrightarrow> healthy (advance evs c)"
  by (auto simp: healthy_def advance_def split: option.splits)

lemma advance_advance: "advance fs (advance es c) = advance (es @ fs) c"
  by (auto simp: advance_def split: option.splits)

lemma advance_Nil: "advance [] c = c"
  by (auto simp: advance_def split: option.splits)

lemma seen_advance: "healthy c \<Longrightarrow> seen (advance evs c) = seen c @ evs"
  by (auto simp: healthy_def advance_def seen_def split: option.splits)

lemma ensure_connected_healthy: "healthy c \<Longrightarrow> ensure_connected c = (Inr (), c)"
  by (simp add: ensure_connected_def healthy_is_connected)

lemma on_device_call_healthy:
  "healthy c \<Longrightarrow> on_device (transport_call ev) c = (Inr (), advance [ev] c)"
  by (auto simp: on_device_def healthy_def transport_call_def advance_def split: option.splits)

lemma then_ensure_connected_healthy:
  "healthy c \<Longrightarrow> then_action ensure_connected n c = n c"
  by (simp add: then_action_def bind_action_def ensure_connected_healthy)

lemma then_call_healthy:
  "healthy c \<Longrightarrow> then_action (on_device (transport_call ev)) n c = n (advance [ev] c)"
  by (simp add: then_action_def bind_action_def on_device_call_healthy)

lemma enable_sync_healthy:
  "healthy c \<Longrightarrow> enable_sync b c = (Inr (), advance [EnableSync b] c)"
  by (simp add: enable_sync_def enableSync_def then_ensure_connected_healthy
      on_device_call_healthy)

lemma write_reg_healthy:
  "healthy c \<Longrightarrow> write_reg a v p c = (Inr (), advance (write_events a v p) c)"
  by (simp add: write_reg_def writeReg_def write_events_def then_ensure_connected_healthy
      then_call_healthy on_device_call_healthy healthy_advance advance_advance)

lemma bind_read_healthy:
  "healthy c \<Longrightarrow>
   bind_action (on_device (readReg a)) k c = k (next_read c a) (advance [ReadReg a] c)"
  by (auto simp: bind_action_def on_device_def readReg_def transport_call_def healthy_def
      advance_def next_read_def split: option.splits)

lemma read_reg_healthy:
  "healthy c \<Longrightarrow>
   read_reg a p c =
     (Inr (next_read (advance [WriteReg 2 p, WriteReg 0 2] c) a), advance (read_events a p) c)"
  by (simp add: read_reg_def writeReg_def read_events_def then_ensure_connected_healthy
      then_call_healthy bind_read_healthy healthy_advance advance_advance return_action_def)

lemma for_each_write_healthy:
  "healthy c \<Longrightarrow>
   for_each (\<lambda>x. write_reg (a x) (v x) (p x)) xs c =
     (Inr (), advance (concat (map (\<lambda>x. write_events (a x) (v x) (p x)) xs)) c)"
proof (induction xs arbitrary: c)
  case Nil
  then show ?case by (simp add: advance_Nil)
next
  case (Cons x xs)
  then show ?case
    by (simp add: write_reg_healthy healthy_advance advance_advance)
qed


text \<open>
  Claim C1. Every completed \<open>write_reg\<close> puts exactly three calls on the transport: register 2
  gets the page selector, the target register gets the value, register 2 gets 0. Every
  completed \<open>read_reg\<close> puts exactly five: register 2 gets the page selector, register 0
  gets 2, the target register is read, register 0 gets 0, register 2 gets 0. After either,
  the page selector of the device is 0. On a connected controller whose transport does not
  raise, both transactions complete.
\<close>

theorem register_transactions_bracketed:
  "(write_reg address val page_select c = (Inr x, c') \<longrightarrow>
      seen c' = seen c @ [WriteReg 2 page_select, WriteReg address val, WriteReg 2 0]
      \<and> page_selector (seen c') = Some 0)
 \<and> (read_reg address page_select c = (Inr y, c'') \<longrightarrow>
      seen c'' = seen c @ [WriteReg 2 page_select, WriteReg 0 2, ReadReg address,
                           WriteReg 0 0, WriteReg 2 0]
      \<and> page_selector (seen c'') = Some 0)
 \<and> (healthy c \<longrightarrow>
      (\<exists>d. write_reg address val page_select c = (Inr (), d))
      \<and> (\<exists>r d. read_reg address page_select c = (Inr r, d)))"
proof (intro conjI impI)
  assume w: "write_reg address val page_select c = (Inr x, c')"
  from write_reg_seen [OF w]
  show "seen c' = seen c @ [WriteReg 2 page_select, WriteReg address val, WriteReg 2 0]"
    by (simp add: write_events_def)
  then show "page_selector (seen c') = Some 0"
    by (simp add: page_selector_append)
next
  assume r: "read_reg address page_select c = (Inr y, c'')"
  from read_reg_seen [OF r]
  show "seen c'' = seen c @ [WriteReg 2 page_select, WriteReg 0 2, ReadReg address,
                             WriteReg 0 0, WriteReg 2 0]"
    by (simp add: read_events_def)
  then show "page_selector (seen c'') = Some 0"
    by (simp add: page_selector_append)
next
  assume "healthy c"
  then show "\<exists>d. write_reg address val page_select c = (Inr (), d)"
    by (simp add: write_reg_healthy)
next
  assume "healthy c"
  then show "\<exists>r d. read_reg address page_select c = (Inr r, d)"
    by (simp add: read_reg_healthy)
qed

lemma healthy_idle_controller: "healthy idle_controller"
  by (simp add: healthy_def idle_controller_def idle_transport_def)

lemma seen_idle_controller: "seen idle_controller = []"
  by (simp add: seen_def idle_controller_def idle_transport_def)

theorem register_transactions_bracketed_witness:
  "healthy idle_controller
   \<and> (\<exists>d. write_reg 0x40 7 0xFFFF idle_controller = (Inr (), d)
          \<and> seen d = [WriteReg 2 0xFFFF, WriteReg 0x40 7, WriteReg 2 0]
          \<and> page_selector (seen d) = Some 0)
   \<and> (\<exists>r d. read_reg 0x6C 0 idle_controller = (Inr r, d)
          \<and> seen d = [WriteReg 2 0, WriteReg 0 2, ReadReg 0x6C, WriteReg 0 0, WriteReg 2 0]
          \<and> page_selector (seen d) = Some 0)"
proof -
  note h = healthy_idle_controller
  note w0 = register_transactions_bracketed
    [where address = "0x40" and val = 7 and page_select = "0xFFFF" and c = idle_controller]
  note r0 = register_transactions_bracketed
    [where address = "0x6C" and page_select = 0 and c = idle_controller]
  from w0 h obtain d where w: "write_reg 0x40 7 0xFFFF idle_controller = (Inr (), d)"
    by blast
  from r0 h obtain r e where r: "read_reg 0x6C 0 idle_controller = (Inr r, e)"
    by blast
  from w0 [where x = "()" and c' = d] w
  have 1: "seen d = [WriteReg 2 0xFFFF, WriteReg 0x40 7, WriteReg 2 0]
           \<and> page_selector (seen d) = Some 0"
    by (simp add: seen_idle_controller)
  from r0 [where y = r and c'' = e] r
  have 2: "seen e = [WriteReg 2 0, WriteReg 0 2, ReadReg 0x6C, WriteReg 0 0, WriteReg 2 0]
           \<and> page_selector (seen e) = Some 0"
    by (simp add: seen_idle_controller)
  from h w r 1 2 show ?thesis by blast
qed

section \<open>Delay encoding\<close>

lemma and_3FFF: "(c::int) AND 0x3FFF = take_bit 14 c"
proof -
  have "(0x3FFF::int) = mask 14" by (simp add: mask_eq_exp_minus_1)
  then show ?thesis by (simp only: take_bit_eq_mask)
qed

lemma take_bit_or_exp: "take_bit n (c::int) OR 2 ^ n = take_bit n c + 2 ^ n"
proof -
  have "take_bit n c + 2 ^ n = take_bit n c OR (2::int) ^ n"
    by (rule disjunctive_add_eq_or, rule bit_eqI) (simp add: bit_simps)
  then show ?thesis by simp
qed

lemma or_4000: "(c::int) mod 16384 OR 16384 = c mod 16384 + 16384"
  using take_bit_or_exp [of 14 c] by (simp add: take_bit_eq_mod)

lemma encode_delay_to_hex_mod:
  "encode_delay_to_hex c f = c mod 2 ^ 14 + (if f then 2 ^ 14 else 0)"
  unfolding encode_delay_to_hex_def Let_def and_3FFF
  by (simp add: or_4000 take_bit_eq_mod)

lemma encode_delay_to_hex_range:
  "0 \<le> encode_delay_to_hex c f \<and> encode_delay_to_hex c f < 2 ^ 15"
proof -
  have "0 \<le> c mod 2 ^ 14" "c mod 2 ^ 14 < 2 ^ 14" by simp_all
  then show ?thesis unfolding encode_delay_to_hex_mod by (auto split: if_splits)
qed

lemma pack_low:
  assumes "0 \<le> a" "a < 2 ^ 16"
  shows "(push_bit 16 b OR a) AND 0xFFFF = (a::int)"
proof -
  have m: "(0xFFFF::int) = mask 16" by (simp add: mask_eq_exp_minus_1)
  have "(push_bit 16 b OR a) AND mask 16 = take_bit 16 (push_bit 16 b OR a)"
    by (simp only: take_bit_eq_mask)
  also have "\<dots> = take_bit 16 a" by (simp add: take_bit_push_bit)
  also have "\<dots> = a" using assms by (simp add: take_bit_int_eq_self)
  finally show ?thesis by (simp only: m)
qed

lemma pack_high:
  assumes "0 \<le> a" "a < 2 ^ 16"
  shows "drop_bit 16 (push_bit 16 b OR a) = (b::int)"
proof -
  have "drop_bit 16 a = 0" using assms by (simp add: drop_bit_eq_div)
  then show ?thesis by (simp add: drop_bit_push_bit)
qed

lemma pack_range:
  assumes "0 \<le> a" "a < 2 ^ 16" "0 \<le> b" "b < 2 ^ 16"
  shows "0 \<le> push_bit 16 b OR (a::int) \<and> push_bit 16 b OR a < 2 ^ 32"
proof -
  have "push_bit 16 b + a = push_bit 16 b OR a"
  proof (rule disjunctive_add_eq_or)
    have t: "take_bit 16 a = a" using assms by (simp add: take_bit_int_eq_self)
    have z: "push_bit 16 b AND take_bit 16 a = 0"
      by (auto simp: bit_eq_iff bit_simps)
    show "push_bit 16 b AND a = 0" using z unfolding t .
  qed
  moreover have "0 \<le> push_bit 16 b + a" using assms by (simp add: push_bit_eq_mult)
  moreover have "push_bit 16 b + a < 2 ^ 32"
  proof -
    have "b \<le> 2 ^ 16 - 1" using assms by simp
    then have "b * 2 ^ 16 \<le> (2 ^ 16 - 1) * 2 ^ 16" by (rule mult_right_mono) simp
    then show ?thesis using assms by (simp add: push_bit_eq_mult)
  qed
  ultimately show ?thesis by simp
qed


text \<open>
  Claim C3. For cycles from 0 to 16383, \<open>encode_delay_to_hex\<close> returns
  \<open>cycles AND 0x3FFF\<close>, with bit 14 set exactly when the fractional flag is given and
  bit 15 clear; the bits 13 to 0 of the result are the cycles again.
\<close>

theorem encode_delay_in_range:
  assumes "0 \<le> cycles" and "cycles \<le> 16383"
  shows "encode_delay_to_hex cycles fractional =
           (cycles AND 0x3FFF) OR (if fractional then 0x4000 else 0)
       \<and> bit (encode_delay_to_hex cycles fractional) 14 = fractional
       \<and> \<not> bit (encode_delay_to_hex cycles fractional) 15
       \<and> encode_delay_to_hex cycles fractional AND 0x3FFF = cycles"
proof -
  have m: "cycles mod 16384 = cycles" using assms by simp
  have e: "encode_delay_to_hex cycles fractional = cycles + (if fractional then 16384 else 0)"
    using m by (simp add: encode_delay_to_hex_mod)
  have 1: "encode_delay_to_hex cycles fractional =
           (cycles AND 0x3FFF) OR (if fractional then 0x4000 else 0)"
    by (simp add: encode_delay_to_hex_def)
  have 2: "bit (encode_delay_to_hex cycles fractional) 14 = fractional"
    unfolding e bit_iff_odd using assms by simp
  have 3: "\<not> bit (encode_delay_to_hex cycles fractional) 15"
    unfolding e bit_iff_odd using assms by simp
  have 4: "encode_delay_to_hex cycles fractional AND 0x3FFF = cycles"
    unfolding e and_3FFF take_bit_eq_mod using m by simp
  from 1 2 3 4 show ?thesis by blast
qed

theorem encode_delay_in_range_witness:
  "(0::int) \<le> 1234 \<and> (1234::int) \<le> 16383
   \<and> encode_delay_to_hex 1234 True = 17618
   \<and> bit (encode_delay_to_hex 1234 True) 14
   \<and> \<not> bit (encode_delay_to_hex 1234 True) 15
   \<and> encode_delay_to_hex 1234 True AND 0x3FFF = 1234"
proof -
  have h: "(0::int) \<le> 1234" "(1234::int) \<le> 16383" by simp_all
  have v: "encode_delay_to_hex 1234 True = 17618"
    by (simp add: encode_delay_to_hex_mod)
  show ?thesis
    using encode_delay_in_range [OF h, of True] h v by simp
qed

text \<open>
  Claim C10. For cycles below 0 or above 16383, \<open>encode_delay_to_hex\<close> still returns a
  value: the cycles reduced modulo \<open>2 ^ 14\<close>, plus \<open>2 ^ 14\<close> when the fractional flag is
  given. The result is a 15-bit number that differs from the cycles asked for.
\<close>

theorem encode_delay_out_of_range:
  assumes "cycles < 0 \<or> 16383 < cycles"
  shows "encode_delay_to_hex cycles fractional =
           cycles mod 2 ^ 14 + (if fractional then 2 ^ 14 else 0)
       \<and> 0 \<le> encode_delay_to_hex cycles fractional
       \<and> encode_delay_to_hex cycles fractional < 2 ^ 15
       \<and> encode_delay_to_hex cycles False \<noteq> cycles"
proof -
  have "0 \<le> cycles mod 2 ^ 14" and "cycles mod 2 ^ 14 < 2 ^ 14" by simp_all
  then have "cycles mod 2 ^ 14 \<noteq> cycles" using assms by auto
  then show ?thesis
    using encode_delay_to_hex_range [of cycles fractional]
    by (simp add: encode_delay_to_hex_mod)
qed

theorem encode_delay_out_of_range_witness:
  "((-1::int) < 0 \<or> 16383 < (-1::int)) \<and> encode_delay_to_hex (-1) False = 16383
   \<and> ((16384::int) < 0 \<or> 16383 < (16384::int)) \<and> encode_delay_to_hex 16384 False = 0
   \<and> encode_delay_to_hex 40000 True = 23616"
  using encode_delay_out_of_range [of "-1" False] encode_delay_out_of_range [of 16384 False]
    encode_delay_out_of_range [of 40000 True]
  by simp

text \<open>
  Claim C2. For a list of exactly 32 delays, \<open>combine_channel_delays\<close> returns 16 words
  of 32 bits; the low 16 bits of word \<open>i\<close> are the encoding of delay \<open>2 * i\<close>, the high 16
  bits the encoding of delay \<open>2 * i + 1\<close>.
\<close>

theorem combine_channel_delays_pairs:
  assumes "length delays = 32"
  shows "\<exists>combined. combine_channel_delays delays = Inr combined \<and> length combined = 16 \<and>
           (\<forall>i<16. 0 \<le> combined ! i \<and> combined ! i < 2 ^ 32
              \<and> combined ! i AND 0xFFFF = encode_delay_to_hex (delays ! (2 * i)) False
              \<and> drop_bit 16 (combined ! i) = encode_delay_to_hex (delays ! (2 * i + 1)) False)"
proof -
  let ?enc = "\<lambda>j. encode_delay_to_hex (delays ! j) False"
  let ?combined = "map (\<lambda>i. push_bit 16 (?enc (i + 1)) OR ?enc i) (map (\<lambda>k. 2 * k) [0..<16])"
  have c: "combine_channel_delays delays = Inr ?combined"
    using assms by (simp add: combine_channel_delays_def)
  have r: "0 \<le> ?enc j \<and> ?enc j < 2 ^ 16" for j
    using encode_delay_to_hex_range [of "delays ! j" False] by simp
  have n: "?combined ! i = push_bit 16 (?enc (2 * i + 1)) OR ?enc (2 * i)" if "i < 16" for i
    using that by (simp del: upt_Suc push_bit_or)
  have "0 \<le> ?combined ! i \<and> ?combined ! i < 2 ^ 32
      \<and> ?combined ! i AND 0xFFFF = ?enc (2 * i)
      \<and> drop_bit 16 (?combined ! i) = ?enc (2 * i + 1)" if "i < 16" for i
    unfolding n [OF that]
    using pack_range [of "?enc (2 * i)" "?enc (2 * i + 1)"]
      pack_low [of "?enc (2 * i)" "?enc (2 * i + 1)"]
      pack_high [of "?enc (2 * i)" "?enc (2 * i + 1)"] r [of "2 * i"] r [of "2 * i + 1"]
    by blast
  moreover have "length ?combined = 16" by simp
  ultimately show ?thesis using c by blast
qed


theorem combine_channel_delays_pairs_witness:
  "length (map int [0..<32]) = 32
   \<and> (\<exists>combined. combine_channel_delays (map int [0..<32]) = Inr combined
         \<and> length combined = 16
         \<and> combined ! 3 AND 0xFFFF = encode_delay_to_hex 6 False
         \<and> drop_bit 16 (combined ! 3) = encode_delay_to_hex 7 False)"
proof -
  have h: "length (map int [0..<32]) = 32" by simp
  have n: "map int [0..<32] ! (2 * 3) = 6" "map int [0..<32] ! (2 * 3 + 1) = 7"
    by (simp_all del: upt_Suc)
  from combine_channel_delays_pairs [OF h] obtain combined where
    c: "combine_channel_delays (map int [0..<32]) = Inr combined" "length combined = 16"
    and p: "\<forall>i<16. 0 \<le> combined ! i \<and> combined ! i < 2 ^ 32
              \<and> combined ! i AND 0xFFFF = encode_delay_to_hex (map int [0..<32] ! (2 * i)) False
              \<and> drop_bit 16 (combined ! i)
                  = encode_delay_to_hex (map int [0..<32] ! (2 * i + 1)) False"
    by blast
  from p have "combined ! 3 AND 0xFFFF = encode_delay_to_hex (map int [0..<32] ! (2 * 3)) False
      \<and> drop_bit 16 (combined ! 3) = encode_delay_to_hex (map int [0..<32] ! (2 * 3 + 1)) False"
    by simp
  then have "combined ! 3 AND 0xFFFF = encode_delay_to_hex 6 False
      \<and> drop_bit 16 (combined ! 3) = encode_delay_to_hex 7 False"
    by (simp only: n)
  with h c show ?thesis by blast
qed

section \<open>The apply sequences\<close>

lemma http_guard_Inr:
  "http_guard what body c = (Inr r, c') \<longleftrightarrow> body c = (Inr r, c')"
  by (auto simp: http_guard_def split: prod.splits sum.splits error.splits)

lemma http_guard_Inl:
  "body c = (Inl e, c') \<Longrightarrow> \<exists>code detail. http_guard what body c = (Inl (HTTPException code detail), c')"
  by (cases e) (auto simp: http_guard_def)

lemma enable_sync_seen:
  assumes "enable_sync b c = (Inr x, c')"
  shows "seen c' = seen c @ [EnableSync b]"
  using assms
  unfolding enable_sync_def enableSync_def then_action_Inr ensure_connected_Inr
  by (auto dest!: on_device_call_seen)

lemma then_enable_sync_healthy:
  "healthy c \<Longrightarrow> then_action (enable_sync b) n c = n (advance [EnableSync b] c)"
  by (simp add: then_action_def bind_action_def enable_sync_healthy)

lemma then_write_reg_healthy:
  "healthy c \<Longrightarrow> then_action (write_reg a v p) n c = n (advance (write_events a v p) c)"
  by (simp add: then_action_def bind_action_def write_reg_healthy)

lemma for_each_healthy:
  assumes "\<And>x d. healthy d \<Longrightarrow> body x d = (Inr (), advance (evs x) d)"
  shows "healthy c \<Longrightarrow> for_each body xs c = (Inr (), advance (concat (map evs xs)) c)"
proof (induction xs arbitrary: c)
  case Nil
  then show ?case by (simp add: advance_Nil)
next
  case (Cons x xs)
  then show ?case
    by (simp add: assms healthy_advance advance_advance)
qed

lemma then_for_each_healthy:
  assumes "\<And>x d. healthy d \<Longrightarrow> body x d = (Inr (), advance (evs x) d)" and "healthy c"
  shows "then_action (for_each body xs) n c = n (advance (concat (map evs xs)) c)"
  by (simp add: then_action_def bind_action_def for_each_healthy [OF assms])

lemma apply_beamforming_body_healthy:
  assumes h: "healthy c" and cd: "combine_channel_delays delays = Inr combined"
  shows "apply_beamforming_body (Inr delays) c =
           (Inr \<lparr>success = True, message = ''Beamforming configuration applied'',
                 data_count = length combined\<rparr>,
            advance (delay_apply_events combined) c)"
proof -
  let ?b1 = "\<lambda>reg_index. write_reg reg_index 0 0"
  let ?e1 = "\<lambda>reg_index. write_events reg_index 0 0"
  let ?b2 = "\<lambda>(index, delay_value). write_reg (0x40 + index) delay_value 0x00010000"
  let ?e2 = "\<lambda>(index, delay_value). write_events (0x40 + index) delay_value 0x00010000"
  have b1: "?b1 x d = (Inr (), advance (?e1 x) d)" if "healthy d" for x d
    using that by (simp add: write_reg_healthy)
  have b2: "?b2 x d = (Inr (), advance (?e2 x) d)" if "healthy d" for x d
    using that by (cases x) (simp add: write_reg_healthy)
  show ?thesis
    unfolding apply_beamforming_body_def Let_def
    by (simp add: h healthy_is_connected cd then_enable_sync_healthy
        then_for_each_healthy [of ?b1 ?e1, OF b1] then_for_each_healthy [of ?b2 ?e2, OF b2]
        then_write_reg_healthy healthy_advance advance_advance return_action_def
        delay_apply_events_def)
qed

lemma apply_pattern_body_healthy:
  assumes h: "healthy c" and sp: "select_pattern int16 cur = Inr (hex, start_word)"
  shows "apply_pattern_body int16 cur c =
           (Inr \<lparr>success = True, message = ''Pattern applied to device'',
                 data_count = length hex\<rparr>,
            advance (pattern_apply_events hex start_word) c)"
proof -
  let ?b1 = "\<lambda>reg_index. write_reg reg_index (push_bit 16 start_word OR start_word) 0"
  let ?e1 = "\<lambda>reg_index. write_events reg_index (push_bit 16 start_word OR start_word) 0"
  let ?b2 = "\<lambda>(i, pat). write_reg (0x40 + start_word + i) pat 0x0000FFFF"
  let ?e2 = "\<lambda>(i, pat). write_events (0x40 + start_word + i) pat 0x0000FFFF"
  have b1: "?b1 x d = (Inr (), advance (?e1 x) d)" if "healthy d" for x d
    using that by (simp add: write_reg_healthy)
  have b2: "?b2 x d = (Inr (), advance (?e2 x) d)" if "healthy d" for x d
    using that by (cases x) (simp add: write_reg_healthy)
  show ?thesis
    unfolding apply_pattern_body_def
    by (simp add: h healthy_is_connected sp then_enable_sync_healthy
        then_for_each_healthy [of ?b1 ?e1, OF b1] then_for_each_healthy [of ?b2 ?e2, OF b2]
        then_write_reg_healthy healthy_advance advance_advance return_action_def
        pattern_apply_events_def)
qed


lemma combine_zero: "combine_channel_delays (replicate 32 0) = Inr (replicate 16 0)"
  by code_simp

lemma upto_0D_14: "[0x0D..0x14] = [13, 14, 15, 16, 17, 18, 19, 20 :: int]"
  by code_simp

lemma upto_0C_13: "[0x0C..0x13] = [12, 13, 14, 15, 16, 17, 18, 19 :: int]"
  by code_simp

lemma upto_0_15: "[0..15] = [0, 1, 2, 3, 4, 5, 6, 7, 8, 9, 10, 11, 12, 13, 14, 15 :: int]"
  by code_simp

lemma py_range_0D_15: "py_range 0x0D 0x15 = [0x0D..0x14]"
  by code_simp

lemma py_range_0C_14: "py_range 0x0C 0x14 = [0x0C..0x13]"
  by code_simp

lemma py_enumerate_zero: "py_enumerate (replicate 16 (0::int)) = map (\<lambda>i. (i, 0)) [0..15]"
  by code_simp

text \<open>
  Claim C4. Applying 32 zero delays on a connected controller whose transport does not raise
  puts on the transport, in this order: sync off; eight writes of 0 to the registers 0x0D
  to 0x14 on page 0; sixteen writes of 0 to the registers 0x40 + i, i from 0 to 15, on page
  0x00010000; sync on; the write of 2 to register 0x08. Each write is the three-call
  transaction of \<open>write_reg\<close>. All delay words come before the sync is switched on.
\<close>

theorem apply_zero_delays:
  assumes "healthy c"
  shows "\<exists>c'. apply_beamforming (Inr (replicate 32 0)) c =
            (Inr \<lparr>success = True, message = ''Beamforming configuration applied'',
                  data_count = 16\<rparr>, c')
         \<and> seen c' = seen c
              @ [EnableSync False]
              @ concat (map (\<lambda>reg. write_events reg 0 0) [0x0D..0x14])
              @ concat (map (\<lambda>i. write_events (0x40 + i) 0 0x00010000) [0..15])
              @ [EnableSync True]
              @ write_events 0x08 0x00000002 0"
proof -
  have "apply_beamforming (Inr (replicate 32 0)) c =
          (Inr \<lparr>success = True, message = ''Beamforming configuration applied'',
                data_count = 16\<rparr>, advance (delay_apply_events (replicate 16 0)) c)"
    using apply_beamforming_body_healthy [OF assms combine_zero]
    by (simp add: apply_beamforming_def http_guard_def)
  moreover have "delay_apply_events (replicate 16 0) =
       [EnableSync False]
       @ concat (map (\<lambda>reg. write_events reg 0 0) [0x0D..0x14])
       @ concat (map (\<lambda>i. write_events (0x40 + i) 0 0x00010000) [0..15])
       @ [EnableSync True]
       @ write_events 0x08 0x00000002 0"
    unfolding delay_apply_events_def py_range_0D_15 py_enumerate_zero
    by (simp add: comp_def)
  ultimately show ?thesis
    using seen_advance [OF assms] by simp
qed

theorem apply_zero_delays_witness:
  "healthy idle_controller
   \<and> (\<exists>c'. fst (apply_beamforming (Inr (replicate 32 0)) idle_controller) =
              Inr \<lparr>success = True, message = ''Beamforming configuration applied'',
                   data_count = 16\<rparr>
          \<and> snd (apply_beamforming (Inr (replicate 32 0)) idle_controller) = c'
          \<and> take 4 (seen c') = [EnableSync False, WriteReg 2 0, WriteReg 0x0D 0, WriteReg 2 0]
          \<and> drop 73 (seen c') = [EnableSync True, WriteReg 2 0, WriteReg 0x08 2, WriteReg 2 0]
          \<and> length (seen c') = 77)"
proof -
  from apply_zero_delays [OF healthy_idle_controller] obtain c' where
    a: "apply_beamforming (Inr (replicate 32 0)) idle_controller =
            (Inr \<lparr>success = True, message = ''Beamforming configuration applied'',
                  data_count = 16\<rparr>, c')"
    and s: "seen c' = seen idle_controller
              @ [EnableSync False]
              @ concat (map (\<lambda>reg. write_events reg 0 0) [0x0D..0x14])
              @ concat (map (\<lambda>i. write_events (0x40 + i) 0 0x00010000) [0..15])
              @ [EnableSync True]
              @ write_events 0x08 0x00000002 0"
    by blast
  have "take 4 (seen c') = [EnableSync False, WriteReg 2 0, WriteReg 0x0D 0, WriteReg 2 0]"
    and "drop 73 (seen c') = [EnableSync True, WriteReg 2 0, WriteReg 0x08 2, WriteReg 2 0]"
    and "length (seen c') = 77"
    unfolding s by (simp_all add: seen_idle_controller write_events_def upto_0D_14 upto_0_15)
  with a healthy_idle_controller show ?thesis by simp
qed

text \<open>
  Claim C5. Applying the preset pattern [0x00020002, 0x0000B5B1] with start word 0x001E puts
  on the transport: sync off; the write of 0 to register 0x08; eight writes of 0x001E001E
  to the registers 0x0C to 0x13 on page 0; then the two pattern words to the addresses
  0x40 + 0x1E and 0x40 + 0x1F on page 0x0000FFFF, and nothing else.
\<close>

theorem apply_default_pattern:
  assumes "healthy c"
  shows "\<exists>c'. apply_pattern int16 default_pattern c =
            (Inr \<lparr>success = True, message = ''Pattern applied to device'', data_count = 2\<rparr>, c')
         \<and> seen c' = seen c
              @ [EnableSync False]
              @ write_events 0x08 0x00000000 0
              @ concat (map (\<lambda>reg. write_events reg 0x001E001E 0) [0x0C..0x13])
              @ write_events (0x40 + 0x1E) 0x00020002 0x0000FFFF
              @ write_events (0x40 + 0x1F) 0x0000B5B1 0x0000FFFF"
proof -
  have sp: "select_pattern int16 default_pattern = Inr ([0x00020002, 0x0000B5B1], 0x001E)"
    by (simp add: select_pattern_def default_pattern_def get_preset_by_type_def
        PRESET_PATTERNS_def)
  have "apply_pattern int16 default_pattern c =
          (Inr \<lparr>success = True, message = ''Pattern applied to device'', data_count = 2\<rparr>,
           advance (pattern_apply_events [0x00020002, 0x0000B5B1] 0x001E) c)"
    using apply_pattern_body_healthy [OF assms sp]
    by (simp add: apply_pattern_def http_guard_def)
  moreover have "pattern_apply_events [0x00020002, 0x0000B5B1] 0x001E =
       [EnableSync False]
       @ write_events 0x08 0x00000000 0
       @ concat (map (\<lambda>reg. write_events reg 0x001E001E 0) [0x0C..0x13])
       @ write_events (0x40 + 0x1E) 0x00020002 0x0000FFFF
       @ write_events (0x40 + 0x1F) 0x0000B5B1 0x0000FFFF"
    unfolding pattern_apply_events_def py_range_0C_14
    by (simp add: py_enumerate_def push_bit_eq_mult upt_rec_numeral)
  ultimately show ?thesis
    using seen_advance [OF assms] by simp
qed


theorem apply_default_pattern_witness:
  "healthy idle_controller
   \<and> (\<exists>c'. apply_pattern int16_raises default_pattern idle_controller =
              (Inr \<lparr>success = True, message = ''Pattern applied to device'',
                    data_count = 2\<rparr>, c')
          \<and> take 7 (seen c') = [EnableSync False, WriteReg 2 0, WriteReg 0x08 0, WriteReg 2 0,
                                 WriteReg 2 0, WriteReg 0x0C 0x001E001E, WriteReg 2 0]
          \<and> drop 28 (seen c') = [WriteReg 2 0xFFFF, WriteReg 0x5E 0x00020002, WriteReg 2 0,
                                  WriteReg 2 0xFFFF, WriteReg 0x5F 0x0000B5B1, WriteReg 2 0])"
proof -
  from apply_default_pattern [OF healthy_idle_controller, of int16_raises]
  obtain c' where
    a: "apply_pattern int16_raises default_pattern idle_controller =
            (Inr \<lparr>success = True, message = ''Pattern applied to device'',
                  data_count = 2\<rparr>, c')"
    and s: "seen c' = seen idle_controller
              @ [EnableSync False]
              @ write_events 0x08 0x00000000 0
              @ concat (map (\<lambda>reg. write_events reg 0x001E001E 0) [0x0C..0x13])
              @ write_events (0x40 + 0x1E) 0x00020002 0x0000FFFF
              @ write_events (0x40 + 0x1F) 0x0000B5B1 0x0000FFFF"
    by blast
  have "take 7 (seen c') = [EnableSync False, WriteReg 2 0, WriteReg 0x08 0, WriteReg 2 0,
                            WriteReg 2 0, WriteReg 0x0C 0x001E001E, WriteReg 2 0]"
    and "drop 28 (seen c') = [WriteReg 2 0xFFFF, WriteReg 0x5E 0x00020002, WriteReg 2 0,
                              WriteReg 2 0xFFFF, WriteReg 0x5F 0x0000B5B1, WriteReg 2 0]"
    unfolding s by (simp_all add: seen_idle_controller write_events_def upto_0C_13)
  with a healthy_idle_controller show ?thesis by simp
qed

lemma for_each_seen:
  assumes "\<And>x d u d'. body x d = (Inr u, d') \<Longrightarrow> \<exists>es. seen d' = seen d @ es"
  shows "for_each body xs c = (Inr u, c') \<Longrightarrow> \<exists>es. seen c' = seen c @ es"
proof (induction xs arbitrary: c)
  case Nil
  then show ?case by simp
next
  case (Cons x xs)
  from Cons.prems obtain v d where b: "body x c = (Inr v, d)" and r: "for_each body xs d = (Inr u, c')"
    by (auto split: prod.splits sum.splits)
  from assms [OF b] obtain es where "seen d = seen c @ es" by blast
  moreover from Cons.IH [OF r] obtain fs where "seen c' = seen d @ fs" by blast
  ultimately show ?case by simp
qed

text \<open>
  Claim C6, as the code has it. A delay apply that completes has switched the sync on again:
  the transport saw sync off, then register writes, then sync on and the write of 2 to
  register 0x08, so the sync line is on when \<open>apply_beamforming\<close> returns its response.
  Nothing is promised for a run in which a call raises.
\<close>

theorem apply_beamforming_restores_sync:
  assumes "apply_beamforming calculated c = (Inr r, c')"
  shows "sync_line (seen c') = Some True
       \<and> (\<exists>mid. seen c' = seen c @ [EnableSync False] @ mid @ [EnableSync True]
                            @ write_events 0x08 0x00000002 0)"
proof -
  from assms have b: "apply_beamforming_body calculated c = (Inr r, c')"
    by (simp add: apply_beamforming_def http_guard_Inr)
  then obtain delays combined where "calculated = Inr delays"
    and "combine_channel_delays delays = Inr combined"
    and run: "then_action (enable_sync False)
              (then_action
                 (for_each (\<lambda>reg_index. write_reg reg_index (push_bit 16 (0::int) OR 0) 0)
                    (py_range 0x0D 0x15))
              (then_action
                 (for_each
                    (\<lambda>(index, delay_value).
                       write_reg (0x40 + 0 * 8 + index) delay_value 0x00010000)
                    (py_enumerate combined))
              (then_action (enable_sync True)
              (then_action (write_reg 0x08 0x00000002 0)
                 (return_action
                    \<lparr>success = True, message = ''Beamforming configuration applied'',
                     data_count = length combined\<rparr>))))) c = (Inr r, c')"
    by (auto simp: apply_beamforming_body_def Let_def split: if_splits sum.splits)
  from run obtain c1 c2 c3 c4 u1 u2 u3 u4 u5 where
    s1: "enable_sync False c = (Inr u1, c1)"
    and s2: "for_each (\<lambda>reg_index. write_reg reg_index (push_bit 16 (0::int) OR 0) 0)
                (py_range 0x0D 0x15) c1 = (Inr u2, c2)"
    and s3: "for_each (\<lambda>(index, delay_value).
                write_reg (0x40 + 0 * 8 + index) delay_value 0x00010000)
                (py_enumerate combined) c2 = (Inr u3, c3)"
    and s4: "enable_sync True c3 = (Inr u4, c4)"
    and s5: "write_reg 0x08 0x00000002 0 c4 = (Inr u5, c')"
    unfolding then_action_Inr return_action_def by auto
  have e1: "seen c1 = seen c @ [EnableSync False]" by (rule enable_sync_seen [OF s1])
  have "\<exists>es. seen c2 = seen c1 @ es"
    by (rule for_each_seen [OF _ s2]) (auto dest: write_reg_seen)
  then obtain es where e2: "seen c2 = seen c1 @ es" by blast
  have "\<exists>es. seen c3 = seen c2 @ es"
    by (rule for_each_seen [OF _ s3]) (auto dest: write_reg_seen)
  then obtain fs where e3: "seen c3 = seen c2 @ fs" by blast
  have e4: "seen c4 = seen c3 @ [EnableSync True]" by (rule enable_sync_seen [OF s4])
  have e5: "seen c' = seen c4 @ write_events 0x08 0x00000002 0" by (rule write_reg_seen [OF s5])
  have all: "seen c' = seen c @ [EnableSync False] @ (es @ fs) @ [EnableSync True]
                @ write_events 0x08 0x00000002 0"
    by (simp add: e1 e2 e3 e4 e5)
  have "sync_line (seen c') = Some True"
    unfolding e5 e4 by (simp add: sync_line_append write_events_def)
  with all show ?thesis by blast
qed

theorem apply_beamforming_restores_sync_witness:
  "\<exists>r c'. apply_beamforming (Inr (replicate 32 0)) idle_controller = (Inr r, c')
        \<and> sync_line (seen c') = Some True"
proof -
  from apply_beamforming_body_healthy [OF healthy_idle_controller combine_zero]
  obtain r c' where a: "apply_beamforming (Inr (replicate 32 0)) idle_controller = (Inr r, c')"
    by (simp add: apply_beamforming_def http_guard_def)
  from apply_beamforming_restores_sync [OF a] a show ?thesis by blast
qed

text \<open>
  Claim C6 as stated asks that every apply sequence switches the sync on again on every
  exit path. Two runs leave it off: a pattern apply that completes, and a delay apply whose
  transport raises on its sixth call, which returns status 500 right there.
\<close>

theorem sync_left_disabled_counterexample:
  "fst (apply_pattern int16_raises default_pattern idle_controller) =
     Inr \<lparr>success = True, message = ''Pattern applied to device'', data_count = 2\<rparr>
   \<and> sync_line (seen (snd (apply_pattern int16_raises default_pattern idle_controller)))
       = Some False
   \<and> fst (apply_beamforming (Inr (replicate 32 0)) (failing_controller 5)) =
       Inl (HTTPException 500 ''Error applying beamforming: USB write failed'')
   \<and> seen (snd (apply_beamforming (Inr (replicate 32 0)) (failing_controller 5))) =
       [EnableSync False, WriteReg 2 0, WriteReg 0x0D 0, WriteReg 2 0, WriteReg 2 0]
   \<and> sync_line (seen (snd (apply_beamforming (Inr (replicate 32 0)) (failing_controller 5))))
       = Some False"
proof -
  have sp: "select_pattern int16_raises default_pattern
              = Inr ([0x00020002, 0x0000B5B1], 0x001E)"
    by (simp add: select_pattern_def default_pattern_def get_preset_by_type_def
        PRESET_PATTERNS_def)
  have "sync_line (pattern_apply_events [0x00020002, 0x0000B5B1] 0x001E) = Some False"
    by (simp add: pattern_apply_events_def py_range_0C_14 upto_0C_13 py_enumerate_def
        write_events_def upt_rec_numeral)
  then have "sync_line (seen (advance (pattern_apply_events [0x00020002, 0x0000B5B1] 0x001E)
                idle_controller)) = Some False"
    by (simp add: seen_advance [OF healthy_idle_controller] sync_line_append)
  then have p: "fst (apply_pattern int16_raises default_pattern idle_controller) =
       Inr \<lparr>success = True, message = ''Pattern applied to device'', data_count = 2\<rparr>
     \<and> sync_line (seen (snd (apply_pattern int16_raises default_pattern idle_controller)))
       = Some False"
    using apply_pattern_body_healthy [OF healthy_idle_controller sp]
    by (simp add: apply_pattern_def http_guard_def)
  have b: "apply_beamforming (Inr (replicate 32 0)) (failing_controller 5) =
      (Inl (HTTPException 500 ''Error applying beamforming: USB write failed''),
       snd (apply_beamforming (Inr (replicate 32 0)) (failing_controller 5)))
     \<and> seen (snd (apply_beamforming (Inr (replicate 32 0)) (failing_controller 5))) =
       [EnableSync False, WriteReg 2 0, WriteReg 0x0D 0, WriteReg 2 0, WriteReg 2 0]"
    by (simp add: apply_beamforming_def http_guard_def apply_beamforming_body_def combine_zero
        is_connected_def failing_controller_def idle_transport_def then_action_def
        bind_action_def enable_sync_def ensure_connected_def on_device_def enableSync_def
        transport_call_def py_range_0D_15 upto_0D_14 write_reg_def writeReg_def seen_def)
  then have b1: "fst (apply_beamforming (Inr (replicate 32 0)) (failing_controller 5)) =
       Inl (HTTPException 500 ''Error applying beamforming: USB write failed'')"
    by (metis fst_conv)
  from b have b2: "sync_line (seen (snd (apply_beamforming (Inr (replicate 32 0))
        (failing_controller 5)))) = Some False"
    by simp
  from p b b1 b2 show ?thesis by blast
qed

text \<open>
  Claim C9. For a list whose length is not 32, \<open>combine_channel_delays\<close> raises the
  \<open>ValueError\<close> about the delay count, and a delay apply with such a list ends in an HTTP
  error with the controller, and so the transport, exactly as before: no register is written.
\<close>

theorem combine_rejects_wrong_length:
  assumes "length delays \<noteq> 32"
  shows "combine_channel_delays delays = Inl (ValueError ''Must provide exactly 32 delay values'')
       \<and> (\<exists>code detail.
             apply_beamforming (Inr delays) c = (Inl (HTTPException code detail), c))"
  using assms
  by (simp add: combine_channel_delays_def apply_beamforming_def http_guard_def
      apply_beamforming_body_def)

theorem combine_rejects_wrong_length_witness:
  "length (replicate 31 (0::int)) \<noteq> 32 \<and> length (replicate 33 (0::int)) \<noteq> 32
   \<and> combine_channel_delays (replicate 31 0)
       = Inl (ValueError ''Must provide exactly 32 delay values'')
   \<and> combine_channel_delays (replicate 33 0)
       = Inl (ValueError ''Must provide exactly 32 delay values'')
   \<and> apply_beamforming (Inr (replicate 31 0)) idle_controller
       = (Inl (HTTPException 500
            ''Error applying beamforming: Must provide exactly 32 delay values''),
          idle_controller)"
proof -
  have h: "length (replicate 31 (0::int)) \<noteq> 32" "length (replicate 33 (0::int)) \<noteq> 32"
    by simp_all
  have a: "apply_beamforming (Inr (replicate 31 0)) idle_controller
       = (Inl (HTTPException 500
            ''Error applying beamforming: Must provide exactly 32 delay values''),
          idle_controller)"
    by (simp add: combine_channel_delays_def apply_beamforming_def http_guard_def
      apply_beamforming_body_def is_connected_def idle_controller_def)
  from combine_rejects_wrong_length [OF h(1), of idle_controller]
    combine_rejects_wrong_length [OF h(2), of idle_controller] h a
  show ?thesis by blast
qed

section \<open>Steering delays\<close>

lemma length_ELEMENT_POSITIONS: "length ELEMENT_POSITIONS = 32"
  by (simp add: ELEMENT_POSITIONS_def)

lemma min_list_shift:
  assumes "xs \<noteq> []"
  shows "min_list (map (\<lambda>d. d - min_list xs) xs) = (0::int)"
proof -
  let ?m = "Min (set xs)"
  have m: "min_list xs = ?m" using assms by (rule min_list_Min)
  have "mono (\<lambda>d::int. d - ?m)" by (rule monoI) simp
  then have "(\<lambda>d. d - ?m) (Min (set xs)) = Min ((\<lambda>d. d - ?m) ` set xs)"
    using assms by (intro mono_Min_commute) simp_all
  then have "Min (set (map (\<lambda>d. d - ?m) xs)) = 0" by simp
  moreover have "map (\<lambda>d. d - ?m) xs \<noteq> []" using assms by simp
  ultimately show ?thesis using min_list_Min [of "map (\<lambda>d. d - ?m) xs"] m by simp
qed

lemma min_list_le:
  assumes "d \<in> set xs"
  shows "min_list xs \<le> (d::int)"
proof -
  have "xs \<noteq> []" using assms by auto
  then have "min_list xs = Min (set xs)" by (rule min_list_Min)
  then show ?thesis using assms by simp
qed

lemma np_round_0: "np_round 0 = 0"
  by (simp add: np_round_def)

text \<open>
  Claim C7, as the code has it. For a steering angle from -30 to 30 degrees, a speed of
  sound from 1000 to 2000 and a frequency other than 0, \<open>calculate_delays_from_angle\<close>
  returns 32 delays, none negative, the smallest 0; for the angle 0 all 32 are 0.
\<close>

theorem calculate_delays_from_angle_normalised:
  assumes "frequency_hz \<noteq> 0"
    and "- 30 \<le> steering_angle_deg" and "steering_angle_deg \<le> 30"
    and "1000 \<le> speed_of_sound" and "speed_of_sound \<le> 2000"
  shows "\<exists>delays. calculate_delays_from_angle steering_angle_deg speed_of_sound frequency_hz
                    = Inr delays
           \<and> length delays = 32
           \<and> list_all (\<lambda>d. 0 \<le> d) delays
           \<and> min_list delays = 0
           \<and> (steering_angle_deg = 0 \<longrightarrow> delays = replicate 32 0)"
proof -
  let ?raw = "map (\<lambda>pos. max 0 (np_round (pos * sin (deg2rad steering_angle_deg)
                    / speed_of_sound / (4 / 10 ^ 9)))) ELEMENT_POSITIONS"
  let ?delays = "map (\<lambda>d. d - min_list ?raw) ?raw"
  have s: "speed_of_sound \<noteq> 0" using assms by simp
  have c: "calculate_delays_from_angle steering_angle_deg speed_of_sound frequency_hz
             = Inr ?delays"
    using assms(1) s by (simp add: calculate_delays_from_angle_def Let_def)
  have ne: "?raw \<noteq> []" using length_ELEMENT_POSITIONS by auto
  have 1: "length ?delays = 32" by (simp add: length_ELEMENT_POSITIONS)
  have 2: "list_all (\<lambda>d. 0 \<le> d) ?delays"
    unfolding list_all_iff using min_list_le [of _ ?raw] by auto
  have 3: "min_list ?delays = 0" using ne by (rule min_list_shift)
  have 4: "?delays = replicate 32 0" if "steering_angle_deg = 0"
  proof -
    have r: "?raw = replicate 32 0"
      using that by (simp add: deg2rad_def np_round_0 map_replicate_const
          length_ELEMENT_POSITIONS)
    have "min_list (replicate 32 (0::int)) = 0"
      using min_list_Min [of "replicate 32 (0::int)"] by simp
    then show ?thesis unfolding r by (simp add: map_replicate)
  qed
  from c 1 2 3 4 show ?thesis by auto
qed

theorem calculate_delays_from_angle_normalised_witness:
  "(5600000::real) \<noteq> 0 \<and> (- 30::real) \<le> 0 \<and> (0::real) \<le> 30
   \<and> (1000::real) \<le> 1500 \<and> (1500::real) \<le> 2000
   \<and> calculate_delays_from_angle 0 1500 5600000 = Inr (replicate 32 0)"
proof -
  have h: "(5600000::real) \<noteq> 0" "(- 30::real) \<le> 0" "(0::real) \<le> 30"
    "(1000::real) \<le> 1500" "(1500::real) \<le> 2000" by simp_all
  from calculate_delays_from_angle_normalised [OF h] h show ?thesis by auto
qed

text \<open>
  Claim C7 as stated holds for every frequency. At the frequency 0 the first statement of the
  function, the wavelength, divides by zero and raises.
\<close>

theorem calculate_delays_zero_frequency_counterexample:
  "calculate_delays_from_angle 0 1500 0 = Inl (ZeroDivisionError ''float division by zero'')"
  by (simp add: calculate_delays_from_angle_def)

section \<open>Diagnostics\<close>

text \<open>
  The rendering of a register has at least 32 characters, so the indices up to 31 used by the
  checks are in range, and the two slices given to \<open>int_base2\<close> are an optional sign
  followed by binary digits, so \<^verbatim>\<open>int(s, 2)\<close> does not raise on them.
\<close>

lemma bin_digits_binary: "set (bin_digits n) \<subseteq> {CHR ''0'', CHR ''1''}"
proof (induction n rule: bin_digits.induct)
  case (1 n)
  show ?case
  proof (cases "n < 2")
    case True
    then show ?thesis by (subst bin_digits.simps) simp
  next
    case False
    with 1 show ?thesis by (subst bin_digits.simps) simp
  qed
qed

lemma set_zfill: "set ds \<subseteq> {CHR ''0'', CHR ''1''} \<Longrightarrow> set (zfill w ds) \<subseteq> {CHR ''0'', CHR ''1''}"
  by (auto simp: zfill_def)

lemma length_zfill: "w \<le> length (zfill w ds)"
  by (simp add: zfill_def)

lemma length_format_032b: "32 \<le> length (format_032b v)"
  using length_zfill [of 31 "bin_digits (nat (- v))"] length_zfill [of 32 "bin_digits (nat v)"]
  by (simp add: format_032b_def)

lemma bin_literal_digits:
  assumes "ds \<noteq> []" and "set ds \<subseteq> {CHR ''0'', CHR ''1''}"
  shows "bin_literal ds" and "bin_literal (CHR ''-'' # ds)"
proof -
  from assms obtain ch r where d: "ds = ch # r" by (cases ds) auto
  with assms have "ch \<noteq> CHR ''-''" by auto
  with assms d show "bin_literal ds"
    by (auto simp: bin_literal_def list_all_iff)
  from assms show "bin_literal (CHR ''-'' # ds)"
    by (auto simp: bin_literal_def list_all_iff)
qed


lemma format_032b_cases:
  obtains ds where "v < 0" "format_032b v = CHR ''-'' # ds" "31 \<le> length ds"
      "set ds \<subseteq> {CHR ''0'', CHR ''1''}"
  | ds where "0 \<le> v" "format_032b v = ds" "32 \<le> length ds"
      "set ds \<subseteq> {CHR ''0'', CHR ''1''}"
proof (cases "v < 0")
  case True
  then have "format_032b v = CHR ''-'' # zfill 31 (bin_digits (nat (- v)))"
    by (simp add: format_032b_def)
  with True that(1) [OF _ _ length_zfill set_zfill [OF bin_digits_binary]] show ?thesis
    by blast
next
  case False
  then have "format_032b v = zfill 32 (bin_digits (nat v))"
    by (simp add: format_032b_def)
  with False that(2) [OF _ _ length_zfill set_zfill [OF bin_digits_binary]] show ?thesis
    by force
qed

lemma bin_literal_first5: "bin_literal (first5 (format_032b v))"
proof (cases v rule: format_032b_cases)
  case (1 ds)
  have "take 4 ds \<noteq> []" using 1(3) by auto
  moreover have "set (take 4 ds) \<subseteq> {CHR ''0'', CHR ''1''}"
    using 1(4) set_take_subset [of 4 ds] by blast
  moreover have "first5 (format_032b v) = CHR ''-'' # take 4 ds"
    by (simp add: first5_def 1(2) numeral_eq_Suc)
  ultimately show ?thesis by (simp add: bin_literal_digits(2))
next
  case (2 ds)
  have "take 5 ds \<noteq> []" using 2(3) by auto
  moreover have "set (take 5 ds) \<subseteq> {CHR ''0'', CHR ''1''}"
    using 2(4) set_take_subset [of 5 ds] by blast
  ultimately show ?thesis by (simp add: first5_def 2(2) bin_literal_digits(1))
qed


lemma bin_literal_last6: "bin_literal (last6 (format_032b v))"
proof (cases v rule: format_032b_cases)
  case (1 ds)
  have "last6 (format_032b v) = drop (length ds - 6) ds"
  proof -
    from 1(3) have "length ds - 5 = Suc (length ds - 6)" by simp
    then show ?thesis by (simp add: last6_def 1(2))
  qed
  moreover have "drop (length ds - 6) ds \<noteq> []" using 1(3) by auto
  moreover have "set (drop (length ds - 6) ds) \<subseteq> {CHR ''0'', CHR ''1''}"
    using 1(4) set_drop_subset [of "length ds - 6" ds] by blast
  ultimately show ?thesis by (simp add: bin_literal_digits(1))
next
  case (2 ds)
  have "drop (length ds - 6) ds \<noteq> []" using 2(3) by auto
  moreover have "set (drop (length ds - 6) ds) \<subseteq> {CHR ''0'', CHR ''1''}"
    using 2(4) set_drop_subset [of "length ds - 6" ds] by blast
  ultimately show ?thesis by (simp add: last6_def 2(2) bin_literal_digits(1))
qed

text \<open>
  For a 32-bit register value, character \<open>i\<close> of the rendering is bit \<open>31 - i\<close> of the
  value: the bit string is big-endian. The NO_CLK_ERR check, which looks at character 15 of
  register 0x6C, passes exactly when bit 16 of that register is set.
\<close>

lemma zfill_bin_digits_Suc:
  assumes "0 < w"
  shows "zfill (Suc w) (bin_digits n) = zfill w (bin_digits (n div 2)) @ [bit_char (odd n)]"
proof (cases "n < 2")
  case True
  then have "n = 0 \<or> n = 1" by auto
  moreover have "replicate w CHR ''0'' = replicate (w - 1) CHR ''0'' @ [CHR ''0'']"
    using assms by (cases w) (simp_all add: replicate_append_same)
  ultimately show ?thesis
    by (subst bin_digits.simps, subst (2) bin_digits.simps) (auto simp: zfill_def bit_char_def)
next
  case False
  then show ?thesis
    by (subst bin_digits.simps) (simp add: zfill_def bit_char_def Suc_diff_le)
qed

lemma zfill_bin_digits_nth:
  "0 < w \<Longrightarrow> n < 2 ^ w \<Longrightarrow>
   length (zfill w (bin_digits n)) = w
   \<and> (\<forall>i<w. zfill w (bin_digits n) ! i = bit_char (bit n (w - 1 - i)))"
proof (induction w arbitrary: n)
  case 0
  then show ?case by simp
next
  case (Suc w)
  show ?case
  proof (cases "w = 0")
    case True
    with Suc.prems have "n = 0 \<or> n = 1" by auto
    then show ?thesis using True
      by (subst bin_digits.simps, subst (2) bin_digits.simps)
        (auto simp: zfill_def bit_char_def bit_0)
  next
    case False
    then have w: "0 < w" by simp
    from Suc.prems have "n div 2 < 2 ^ w" by auto
    from Suc.IH [OF w this] have
      l: "length (zfill w (bin_digits (n div 2))) = w"
      and nth: "\<And>i. i < w \<Longrightarrow>
        zfill w (bin_digits (n div 2)) ! i = bit_char (bit (n div 2) (w - 1 - i))"
      by blast+
    have e: "zfill (Suc w) (bin_digits n) = zfill w (bin_digits (n div 2)) @ [bit_char (odd n)]"
      by (rule zfill_bin_digits_Suc [OF w])
    have "zfill (Suc w) (bin_digits n) ! i = bit_char (bit n (Suc w - 1 - i))" if "i < Suc w" for i
    proof (cases "i < w")
      case True
      then have "Suc w - 1 - i = Suc (w - 1 - i)" by simp
      then show ?thesis using True nth [OF True] l
        by (simp add: e nth_append bit_Suc)
    next
      case False
      with that have "i = w" by simp
      then show ?thesis using l by (simp add: e nth_append bit_0)
    qed
    then show ?thesis using l by (simp add: e)
  qed
qed

lemma format_032b_nth:
  assumes "0 \<le> v" and "v < 2 ^ 32" and "i < 32"
  shows "format_032b v ! i = bit_char (bit v (31 - i))"
proof -
  have "nat v < 2 ^ 32" using assms by (simp add: nat_less_iff)
  from zfill_bin_digits_nth [of 32 "nat v"] this assms(3)
  have "zfill 32 (bin_digits (nat v)) ! i = bit_char (bit (nat v) (31 - i))" by simp
  moreover have "bit (nat v) (31 - i) = bit v (31 - i)"
    using assms(1) by (simp add: bit_nat_iff)
  ultimately show ?thesis using assms(1) by (simp add: format_032b_def)
qed

lemma no_clk_err_bit:
  assumes "0 \<le> reg6C r" and "reg6C r < 2 ^ 32"
  shows "fst (diagnostic_checks r ! 2) \<longleftrightarrow> bit (reg6C r) 16"
  using format_032b_nth [OF assms, of 15]
  by (simp add: diagnostic_checks_def Let_def bit_char_def)

lemma zero_checks:
  "map (\<lambda>ch. (check_name ch, passed ch, check_value ch))
       (map to_check (diagnostic_checks zero_snapshot)) =
     [(''TEMP_SHUT_ERR[11:6]'', True, Some ''000000''),
      (''TEMP_SHUT_ERR[5:0]'', True, Some ''000000''),
      (''NO_CLK_ERR'', False, Some ''0''),
      (''SINGLE_LVL_ERR'', True, Some ''0''),
      (''LONG_TRAN_ERR'', True, Some ''0''),
      (''P5V_SUP_ERR'', True, Some ''0''),
      (''M5V_SUP_ERR'', True, Some ''0''),
      (''PHV_RANGE_ERR'', True, Some ''0''),
      (''TRIG_ERR'', True, Some ''0''),
      (''STANDBY_ERR'', True, Some ''0''),
      (''VALID_FLAG_1'', False, Some ''0''),
      (''VALID_FLAG_2'', False, Some ''0''),
      (''VALID_FLAG_3'', False, Some ''0''),
      (''VALID_FLAG_4'', False, Some ''0''),
      (''VALID_FLAG_5'', False, Some ''0''),
      (''ERROR_RST'', True, Some ''0'')]"
  by code_simp

lemma zero_not_all_passed:
  "\<not> list_all passed (map to_check (diagnostic_checks zero_snapshot))"
  by code_simp

lemma zero_no_reset_entry:
  "filter (\<lambda>ch. check_name ch = ''ERROR_RESET'') (map to_check (diagnostic_checks zero_snapshot)) = []"
  by code_simp

lemma capture_is_connected:
  assumes "capture c = (Inr r, c1)"
  shows "is_connected c"
  using assms
  unfolding capture_def bind_action_Inr read_reg_def then_action_Inr ensure_connected_Inr
  by blast

lemma run_diagnostics_failed_checks:
  assumes cap: "capture c = (Inr r, c1)"
    and np: "\<not> list_all passed (map to_check (diagnostic_checks r))"
  shows "\<exists>entry c2. run_diagnostics c =
            (Inr (''FAIL'', map to_check (diagnostic_checks r) @ [entry]), c2)
          \<and> check_name entry = ''ERROR_RESET'' \<and> check_value entry = None"
proof -
  have ec: "ensure_connected c = (Inr (), c)"
    using capture_is_connected [OF cap] by (simp add: ensure_connected_def)
  obtain res c2 where rf: "reset_error_flags r c1 = (res, c2)" by (cases "reset_error_flags r c1")
  show ?thesis
    by (cases res) (simp_all add: run_diagnostics_def ec cap np rf Let_def)
qed

lemma bind_read_reg_healthy:
  "healthy c \<Longrightarrow>
   bind_action (read_reg a p) k c =
     k (next_read (advance [WriteReg 2 p, WriteReg 0 2] c) a) (advance (read_events a p) c)"
  by (simp add: bind_action_def read_reg_healthy)

lemma next_read_idle: "next_read (advance evs idle_controller) a = 0"
  by (simp add: next_read_def advance_def idle_controller_def idle_transport_def)

lemma capture_idle:
  "capture idle_controller =
     (Inr zero_snapshot,
      advance (concat (map (\<lambda>a. read_events a 0) [0x1D, 0x4D, 0x4E, 0x62, 0x6C, 0x78]))
        idle_controller)"
  by (simp add: capture_def bind_read_reg_healthy healthy_idle_controller healthy_advance
      advance_advance next_read_idle return_action_def zero_snapshot_def)

lemma format_032b_zero: "format_032b 0 = ''00000000000000000000000000000000''"
  by code_simp

lemma reset_error_flags_healthy:
  "healthy c \<Longrightarrow>
   reset_error_flags zero_snapshot c =
     (Inr (), advance (write_events 0x08 0x00000002 0 @ write_events 0x4D 0x10000 0
                       @ write_events 0x4D 0 0) c)"
  by (simp add: reset_error_flags_def zero_snapshot_def format_032b_zero then_write_reg_healthy
      write_reg_healthy healthy_advance advance_advance)

text \<open>
  Claim C8. When the six diagnostic registers read as zero, \<open>run_diagnostics\<close> reports
  FAIL with 17 entries: the 16 checks, of which the five VALID_FLAG checks and NO_CLK_ERR
  (character 15 of the 32-character rendering of register 0x6C must be 1) have failed, and
  after them exactly one ERROR_RESET entry for the one attempt to reset the error flags.
\<close>

theorem diagnostics_all_zero:
  assumes "capture c = (Inr zero_snapshot, c1)"
  shows "\<exists>checks c2. run_diagnostics c = (Inr (''FAIL'', checks), c2)
           \<and> length checks = 17
           \<and> map (\<lambda>ch. (check_name ch, passed ch)) (butlast checks) =
               [(''TEMP_SHUT_ERR[11:6]'', True), (''TEMP_SHUT_ERR[5:0]'', True),
                (''NO_CLK_ERR'', False), (''SINGLE_LVL_ERR'', True), (''LONG_TRAN_ERR'', True),
                (''P5V_SUP_ERR'', True), (''M5V_SUP_ERR'', True), (''PHV_RANGE_ERR'', True),
                (''TRIG_ERR'', True), (''STANDBY_ERR'', True),
                (''VALID_FLAG_1'', False), (''VALID_FLAG_2'', False), (''VALID_FLAG_3'', False),
                (''VALID_FLAG_4'', False), (''VALID_FLAG_5'', False), (''ERROR_RST'', True)]
           \<and> check_name (last checks) = ''ERROR_RESET''
           \<and> length (filter (\<lambda>ch. check_name ch = ''ERROR_RESET'') checks) = 1"
proof -
  let ?cs = "map to_check (diagnostic_checks zero_snapshot)"
  from run_diagnostics_failed_checks [OF assms zero_not_all_passed]
  obtain entry c2 where
    r: "run_diagnostics c = (Inr (''FAIL'', ?cs @ [entry]), c2)"
    and n: "check_name entry = ''ERROR_RESET''" by blast
  have l: "length (?cs @ [entry]) = 17"
    using arg_cong [OF zero_checks, of length] by simp
  have "map (\<lambda>ch. (check_name ch, passed ch)) ?cs
      = map (\<lambda>(a, b, c). (a, b)) (map (\<lambda>ch. (check_name ch, passed ch, check_value ch)) ?cs)"
    by simp
  then have b: "map (\<lambda>ch. (check_name ch, passed ch)) (butlast (?cs @ [entry])) =
               [(''TEMP_SHUT_ERR[11:6]'', True), (''TEMP_SHUT_ERR[5:0]'', True),
                (''NO_CLK_ERR'', False), (''SINGLE_LVL_ERR'', True), (''LONG_TRAN_ERR'', True),
                (''P5V_SUP_ERR'', True), (''M5V_SUP_ERR'', True), (''PHV_RANGE_ERR'', True),
                (''TRIG_ERR'', True), (''STANDBY_ERR'', True),
                (''VALID_FLAG_1'', False), (''VALID_FLAG_2'', False), (''VALID_FLAG_3'', False),
                (''VALID_FLAG_4'', False), (''VALID_FLAG_5'', False), (''ERROR_RST'', True)]"
    unfolding zero_checks by simp
  have f: "length (filter (\<lambda>ch. check_name ch = ''ERROR_RESET'') (?cs @ [entry])) = 1"
    using n by (simp add: zero_no_reset_entry)
  have n': "check_name (last (?cs @ [entry])) = ''ERROR_RESET''"
    using n by simp
  from r l b n' f show ?thesis
    by - (rule exI [of _ "?cs @ [entry]"], rule exI [of _ c2], (intro conjI; assumption))
qed


theorem diagnostics_all_zero_witness:
  "capture idle_controller = (Inr zero_snapshot, snd (capture idle_controller))
   \<and> fst (run_diagnostics idle_controller) =
       Inr (''FAIL'',
            map to_check (diagnostic_checks zero_snapshot) @
            [\<lparr>check_name = ''ERROR_RESET'', passed = True,
              check_message = ''Error flags reset attempted'', check_value = None\<rparr>])
   \<and> drop 30 (seen (snd (run_diagnostics idle_controller))) =
       [WriteReg 2 0, WriteReg 0x08 2, WriteReg 2 0,
        WriteReg 2 0, WriteReg 0x4D 0x10000, WriteReg 2 0,
        WriteReg 2 0, WriteReg 0x4D 0, WriteReg 2 0]
   \<and> length (filter (\<lambda>ch. check_name ch = ''ERROR_RESET'')
         (snd (projr (fst (run_diagnostics idle_controller))))) = 1"
proof -
  let ?c1 = "advance (concat (map (\<lambda>a. read_events a 0) [0x1D, 0x4D, 0x4E, 0x62, 0x6C, 0x78]))
        idle_controller"
  have h1: "healthy ?c1" by (simp add: healthy_idle_controller healthy_advance)
  have ec: "ensure_connected idle_controller = (Inr (), idle_controller)"
    by (simp add: ensure_connected_healthy healthy_idle_controller)
  have run: "run_diagnostics idle_controller =
      (Inr (''FAIL'',
            map to_check (diagnostic_checks zero_snapshot) @
            [\<lparr>check_name = ''ERROR_RESET'', passed = True,
              check_message = ''Error flags reset attempted'', check_value = None\<rparr>]),
       advance (write_events 0x08 0x00000002 0 @ write_events 0x4D 0x10000 0
                       @ write_events 0x4D 0 0) ?c1)"
    unfolding run_diagnostics_def
    by (simp only: ec capture_idle prod.case sum.case Let_def zero_not_all_passed
        reset_error_flags_healthy [OF h1] not_False_eq_True if_True)
  from diagnostics_all_zero [OF capture_idle] obtain checks c2 where
    d: "run_diagnostics idle_controller = (Inr (''FAIL'', checks), c2)"
    and f: "length (filter (\<lambda>ch. check_name ch = ''ERROR_RESET'') checks) = 1"
    by blast
  have 1: "capture idle_controller = (Inr zero_snapshot, snd (capture idle_controller))"
    by (simp add: capture_idle)
  have 2: "drop 30 (seen (snd (run_diagnostics idle_controller))) =
       [WriteReg 2 0, WriteReg 0x08 2, WriteReg 2 0,
        WriteReg 2 0, WriteReg 0x4D 0x10000, WriteReg 2 0,
        WriteReg 2 0, WriteReg 0x4D 0, WriteReg 2 0]"
    unfolding run
    by (simp add: advance_advance seen_advance healthy_idle_controller seen_idle_controller
        read_events_def write_events_def)
  have 3: "length (filter (\<lambda>ch. check_name ch = ''ERROR_RESET'')
         (snd (projr (fst (run_diagnostics idle_controller))))) = 1"
    using f unfolding d by simp
  from 1 2 3 show ?thesis unfolding run by simp
qed

end
